theory Spec2Isabelle
  imports Main
begin

section \<open>Credential store: the User model\<close>

text \<open>
  \<open>Date.now()\<close> is a number of milliseconds since the epoch. One call of a model function
  reads the clock once: the value is passed in as \<open>now\<close>.
\<close>

type_synonym time = nat

text \<open>
  The fields of \<open>userSchema\<close> that the authentication code reads or writes. A path whose
  value is \<open>null\<close> or \<open>undefined\<close> is \<open>None\<close>; a path removed by \<open>$unset\<close> is read back
  with its schema default (\<open>loginAttempts\<close>: 0, \<open>lockUntil\<close>: null).
\<close>

record user =
  uid :: nat
  name :: "string option"
  email :: "string option"
  password :: "string option"
  avatar :: "string option"
  isEmailVerified :: bool
  emailVerificationToken :: "string option"
  emailVerificationExpires :: "time option"
  passwordResetToken :: "string option"
  passwordResetExpires :: "time option"
  googleId :: "string option"
  facebookId :: "string option"
  currency :: string
  theme :: string
  language :: string
  lastLogin :: time
  loginAttempts :: nat
  lockUntil :: "time option"
  isActive :: bool
  isGuest :: bool

text \<open>The collection, in insertion order; \<open>findOne\<close> answers with the first match.\<close>

type_synonym store = "user list"

datatype error =
    InvalidCredentials
  | AccountLocked
  | AccountDeactivated
  | ValidationError "string list"
  | DuplicateKey string
  | TypeError string

fun message :: "error \<Rightarrow> string" where
  "message InvalidCredentials = ''Invalid credentials''"
| "message AccountLocked =
     ''Account is temporarily locked due to too many failed login attempts''"
| "message AccountDeactivated = ''Account is deactivated''"
| "message (ValidationError ms) = ''User validation failed: '' @ concat (map (\<lambda>m. m @ '', '') ms)"
| "message (DuplicateKey m) = m"
| "message (TypeError m) = m"

definition findOne :: "(user \<Rightarrow> bool) \<Rightarrow> store \<Rightarrow> user option" where
  "findOne P st = find P st"

text \<open>\<open>updateOne\<close> changes the first document that matches the filter, and only that one.\<close>

fun updateOne :: "(user \<Rightarrow> bool) \<Rightarrow> (user \<Rightarrow> user) \<Rightarrow> store \<Rightarrow> store" where
  "updateOne P f [] = []"
| "updateOne P f (v # vs) = (if P v then f v # vs else v # updateOne P f vs)"

text \<open>\<open>this.updateOne(update)\<close> on a document filters on the document's \<open>_id\<close>.\<close>

definition doc_updateOne :: "user \<Rightarrow> (user \<Rightarrow> user) \<Rightarrow> store \<Rightarrow> store" where
  "doc_updateOne u f st = updateOne (\<lambda>v. uid v = uid u) f st"

subsection \<open>Schema setters of the email path\<close>

definition between :: "char \<Rightarrow> char \<Rightarrow> char \<Rightarrow> bool" where
  "between lo hi c = ((of_char lo :: nat) \<le> of_char c \<and> (of_char c :: nat) \<le> of_char hi)"

definition lower_char :: "char \<Rightarrow> char" where
  "lower_char c =
     (if between CHR ''A'' CHR ''Z'' c then char_of (of_char c + (32::nat)) else c)"

definition is_space :: "char \<Rightarrow> bool" where
  "is_space c = (c = CHR '' '' \<or> between CHR 0x09 CHR 0x0D c)"

definition trim :: "string \<Rightarrow> string" where
  "trim s = rev (dropWhile is_space (rev (dropWhile is_space s)))"

definition toLowerCase :: "string \<Rightarrow> string" where
  "toLowerCase s = map lower_char s"

text \<open>
  The email path is declared \<open>lowercase: true, trim: true\<close>: the value is lowercased and
  trimmed when it is assigned to a document and when it is cast in a query filter.
\<close>

definition emailSetter :: "string \<Rightarrow> string" where
  "emailSetter s = toLowerCase (trim s)"

subsection \<open>Lockout\<close>

text \<open>The virtual \<open>isLocked\<close>: \<open>!!(this.lockUntil && this.lockUntil > Date.now())\<close>.\<close>

definition isLocked :: "time \<Rightarrow> user \<Rightarrow> bool" where
  "isLocked now u = (case lockUntil u of None \<Rightarrow> False | Some t \<Rightarrow> t > now)"

text \<open>
  \<open>comparePassword\<close>: an absent or empty stored hash compares false; otherwise the answer
  is that of \<open>bcrypt.compare\<close>, a parameter of the model.
\<close>

definition comparePassword :: "(string \<Rightarrow> string \<Rightarrow> bool) \<Rightarrow> user \<Rightarrow> string \<Rightarrow> bool" where
  "comparePassword bcrypt_compare u candidatePassword =
     (case password u of
        None \<Rightarrow> False
      | Some h \<Rightarrow> if h = [] then False else bcrypt_compare candidatePassword h)"

definition incLoginAttempts :: "time \<Rightarrow> user \<Rightarrow> store \<Rightarrow> store" where
  "incLoginAttempts now u st =
     (if (case lockUntil u of None \<Rightarrow> False | Some t \<Rightarrow> t < now)
      then doc_updateOne u (\<lambda>v. v\<lparr>lockUntil := None, loginAttempts := 1\<rparr>) st
      else if loginAttempts u + 1 \<ge> 5 \<and> \<not> isLocked now u
      then doc_updateOne u
             (\<lambda>v. v\<lparr>loginAttempts := loginAttempts v + 1,
                    lockUntil := Some (now + 2 * 60 * 60 * 1000)\<rparr>) st
      else doc_updateOne u (\<lambda>v. v\<lparr>loginAttempts := loginAttempts v + 1\<rparr>) st)"

definition resetLoginAttempts :: "user \<Rightarrow> store \<Rightarrow> store" where
  "resetLoginAttempts u st =
     doc_updateOne u (\<lambda>v. v\<lparr>loginAttempts := 0, lockUntil := None\<rparr>) st"

text \<open>
  A JavaScript argument that may be a string, \<open>null\<close> or \<open>undefined\<close>; the falsy values are
  \<open>null\<close>, \<open>undefined\<close> and the empty string.
\<close>

definition truthy :: "string option \<Rightarrow> bool" where
  "truthy p = (case p of None \<Rightarrow> False | Some s \<Rightarrow> s \<noteq> [])"

definition includes_at :: "string \<Rightarrow> bool" where
  "includes_at identifier = (CHR ''@'' \<in> set identifier)"

definition lookupCredentials :: "string \<Rightarrow> store \<Rightarrow> user option" where
  "lookupCredentials identifier st =
     (if includes_at identifier
      then findOne (\<lambda>u. email u = Some (emailSetter identifier)) st
      else findOne (\<lambda>u. googleId u = Some identifier \<or> facebookId u = Some identifier) st)"

text \<open>
  \<open>findByCredentials\<close> returns the document it loaded (with \<open>lastLogin\<close> assigned) or the
  error it throws, and the collection after its writes. The counters of the returned
  document are the loaded ones: \<open>resetLoginAttempts\<close> writes to the collection only, and
  \<open>save\<close> sends the one modified path.
\<close>

definition findByCredentials ::
  "(string \<Rightarrow> string \<Rightarrow> bool) \<Rightarrow> time \<Rightarrow> string \<Rightarrow> string option \<Rightarrow> store
     \<Rightarrow> (error + user) \<times> store" where
  "findByCredentials bcrypt_compare now identifier pw st =
     (case lookupCredentials identifier st of
        None \<Rightarrow> (Inl InvalidCredentials, st)
      | Some u \<Rightarrow>
          if isLocked now u then (Inl AccountLocked, st)
          else if \<not> isActive u then (Inl AccountDeactivated, st)
          else if truthy pw \<and> \<not> comparePassword bcrypt_compare u (the pw)
          then (Inl InvalidCredentials, incLoginAttempts now u st)
          else
            let st1 = (if loginAttempts u > 0 then resetLoginAttempts u st else st);
                st2 = doc_updateOne u (\<lambda>v. v\<lparr>lastLogin := now\<rparr>) st1
            in (Inr (u\<lparr>lastLogin := now\<rparr>), st2))"

section \<open>Responses\<close>

text \<open>
  JSON values of the response bodies. A signed token is represented by the name of the
  secret it is signed with and the payload it carries.
\<close>

datatype json =
    JNull
  | JBool bool
  | JNum nat
  | JStr string
  | JToken string json
  | JArr "json list"
  | JObj "(string \<times> json) list"

record response =
  status :: nat
  body :: json

text \<open>The decimal rendering of a number inside a template string.\<close>

definition digit_char :: "nat \<Rightarrow> char" where
  "digit_char d = char_of (of_char CHR ''0'' + d)"

fun decimal :: "nat \<Rightarrow> string" where
  "decimal n = (if n < 10 then [digit_char n] else decimal (n div 10) @ [digit_char (n mod 10)])"

declare decimal.simps [simp del]

definition js_truthy :: "json \<Rightarrow> bool" where
  "js_truthy v =
     (case v of JNull \<Rightarrow> False | JBool b \<Rightarrow> b | JNum n \<Rightarrow> n \<noteq> 0 | JStr s \<Rightarrow> s \<noteq> []
      | JToken k p \<Rightarrow> True | JArr vs \<Rightarrow> True | JObj fs \<Rightarrow> True)"

subsection \<open>sanitizeUser and generateTokens\<close>

text \<open>
  The argument of \<open>sanitizeUser\<close> and \<open>generateTokens\<close> is a Mongoose document or a plain
  object (the demo users).
\<close>

datatype user_value = Doc user | Plain "(string \<times> json) list"

definition opt_field :: "string \<Rightarrow> ('a \<Rightarrow> json) \<Rightarrow> 'a option \<Rightarrow> (string \<times> json) list" where
  "opt_field k to v = (case v of None \<Rightarrow> [] | Some x \<Rightarrow> [(k, to x)])"

text \<open>
  \<open>toObject()\<close> with \<open>virtuals: true\<close>: the paths that have a value, then the virtuals
  \<open>isLocked\<close> and \<open>id\<close>.
\<close>

definition toObject :: "time \<Rightarrow> user \<Rightarrow> (string \<times> json) list" where
  "toObject now u =
     [(''_id'', JNum (uid u))]
     @ opt_field ''name'' JStr (name u)
     @ opt_field ''email'' JStr (email u)
     @ opt_field ''password'' JStr (password u)
     @ opt_field ''avatar'' JStr (avatar u)
     @ [(''isEmailVerified'', JBool (isEmailVerified u))]
     @ opt_field ''emailVerificationToken'' JStr (emailVerificationToken u)
     @ opt_field ''emailVerificationExpires'' JNum (emailVerificationExpires u)
     @ opt_field ''passwordResetToken'' JStr (passwordResetToken u)
     @ opt_field ''passwordResetExpires'' JNum (passwordResetExpires u)
     @ opt_field ''googleId'' JStr (googleId u)
     @ opt_field ''facebookId'' JStr (facebookId u)
     @ [(''preferences'', JObj [(''currency'', JStr (currency u)), (''theme'', JStr (theme u)),
                               (''language'', JStr (language u))]),
        (''lastLogin'', JNum (lastLogin u)),
        (''loginAttempts'', JNum (loginAttempts u))]
     @ opt_field ''lockUntil'' JNum (lockUntil u)
     @ [(''isActive'', JBool (isActive u)),
        (''isGuest'', JBool (isGuest u)),
        (''isLocked'', JBool (isLocked now u)),
        (''id'', JNum (uid u))]"

text \<open>\<open>delete obj.k\<close> removes the own property \<open>k\<close>.\<close>

definition delete_prop :: "string \<Rightarrow> (string \<times> json) list \<Rightarrow> (string \<times> json) list" where
  "delete_prop k obj = filter (\<lambda>p. fst p \<noteq> k) obj"

definition sanitizeUser :: "time \<Rightarrow> user_value \<Rightarrow> (string \<times> json) list" where
  "sanitizeUser now usr =
     (let userObj = (case usr of Doc u \<Rightarrow> toObject now u | Plain obj \<Rightarrow> obj)
      in delete_prop ''lockUntil''
          (delete_prop ''loginAttempts''
            (delete_prop ''emailVerificationExpires''
              (delete_prop ''emailVerificationToken''
                (delete_prop ''passwordResetExpires''
                  (delete_prop ''passwordResetToken''
                    (delete_prop ''password'' userObj)))))))"

text \<open>
  \<open>generateTokens\<close>: the payload \<open>{userId, email, isGuest}\<close> signed once with each secret
  (both secrets are taken to be configured, so that signing does not throw). A property
  that is \<open>undefined\<close> is not serialised into the payload.
\<close>

definition token_payload :: "user_value \<Rightarrow> json" where
  "token_payload usr =
     (case usr of
        Doc u \<Rightarrow>
          JObj ([(''userId'', JNum (uid u))] @ opt_field ''email'' JStr (email u)
                @ [(''isGuest'', JBool (isGuest u))])
      | Plain obj \<Rightarrow>
          JObj (opt_field ''userId'' (\<lambda>v. v) (map_of obj ''_id'')
                @ opt_field ''email'' (\<lambda>v. v) (map_of obj ''email'')
                @ [(''isGuest'',
                    (case map_of obj ''isGuest'' of
                       None \<Rightarrow> JBool False
                     | Some v \<Rightarrow> if js_truthy v then v else JBool False))]))"

definition generateTokens :: "user_value \<Rightarrow> json \<times> json" where
  "generateTokens usr =
     (JToken ''JWT_SECRET'' (token_payload usr),
      JToken ''JWT_REFRESH_SECRET'' (token_payload usr))"

definition error_body :: "string \<Rightarrow> json" where
  "error_body msg = JObj [(''status'', JStr ''error''), (''message'', JStr msg)]"

definition message_body :: "string \<Rightarrow> json" where
  "message_body msg = JObj [(''status'', JStr ''success''), (''message'', JStr msg)]"

definition session_body :: "string \<Rightarrow> (string \<times> json) list \<Rightarrow> json \<times> json \<Rightarrow> json" where
  "session_body msg userObj tokens =
     JObj [(''status'', JStr ''success''),
           (''message'', JStr msg),
           (''data'', JObj [(''user'', JObj userObj),
                           (''tokens'', JObj [(''accessToken'', fst tokens),
                                             (''refreshToken'', snd tokens)])])]"

section \<open>Schema validation\<close>

subsection \<open>Regular expressions\<close>

text \<open>
  The patterns of the schema use character classes, concatenation, alternation and
  repetition only. \<open>regex_test\<close> decides whether the whole string matches (the patterns
  are anchored with \<open>^\<close> and \<open>$\<close>), by derivatives; \<open>in_lang\<close> is the language of a pattern.
\<close>

datatype regex =
    RNever
  | REmpty
  | RChar "char \<Rightarrow> bool"
  | RAlt regex regex
  | RSeq regex regex
  | RStar regex

fun nullable :: "regex \<Rightarrow> bool" where
  "nullable RNever = False"
| "nullable REmpty = True"
| "nullable (RChar P) = False"
| "nullable (RAlt r s) = (nullable r \<or> nullable s)"
| "nullable (RSeq r s) = (nullable r \<and> nullable s)"
| "nullable (RStar r) = True"

fun deriv :: "char \<Rightarrow> regex \<Rightarrow> regex" where
  "deriv c RNever = RNever"
| "deriv c REmpty = RNever"
| "deriv c (RChar P) = (if P c then REmpty else RNever)"
| "deriv c (RAlt r s) = RAlt (deriv c r) (deriv c s)"
| "deriv c (RSeq r s) =
     (if nullable r then RAlt (RSeq (deriv c r) s) (deriv c s) else RSeq (deriv c r) s)"
| "deriv c (RStar r) = RSeq (deriv c r) (RStar r)"

definition regex_test :: "regex \<Rightarrow> string \<Rightarrow> bool" where
  "regex_test r s = nullable (fold deriv s r)"

inductive in_lang :: "regex \<Rightarrow> string \<Rightarrow> bool" where
  empty: "in_lang REmpty []"
| char: "P c \<Longrightarrow> in_lang (RChar P) [c]"
| alt_left: "in_lang r w \<Longrightarrow> in_lang (RAlt r s) w"
| alt_right: "in_lang s w \<Longrightarrow> in_lang (RAlt r s) w"
| seq: "in_lang r u \<Longrightarrow> in_lang s v \<Longrightarrow> in_lang (RSeq r s) (u @ v)"
| star_none: "in_lang (RStar r) []"
| star_more: "in_lang r u \<Longrightarrow> in_lang (RStar r) v \<Longrightarrow> in_lang (RStar r) (u @ v)"

definition RPlus :: "regex \<Rightarrow> regex" where
  "RPlus r = RSeq r (RStar r)"

definition ROpt :: "regex \<Rightarrow> regex" where
  "ROpt r = RAlt r REmpty"

text \<open>The class \<open>\w\<close>: letters, digits and the underscore.\<close>

definition word_char :: "char \<Rightarrow> bool" where
  "word_char c =
     (between CHR ''a'' CHR ''z'' c \<or> between CHR ''A'' CHR ''Z'' c
      \<or> between CHR ''0'' CHR ''9'' c \<or> c = CHR ''_'')"

definition dot_or_dash :: "char \<Rightarrow> bool" where
  "dot_or_dash c = (c = CHR ''.'' \<or> c = CHR ''-'')"

definition is_at :: "char \<Rightarrow> bool" where
  "is_at c = (c = CHR ''@'')"

definition is_dot :: "char \<Rightarrow> bool" where
  "is_dot c = (c = CHR ''.'')"

text \<open>The group \<open>(\.\w{2,3})\<close>: a dot, then two or three word characters.\<close>

definition dot_suffix :: regex where
  "dot_suffix = RSeq (RChar is_dot) (RSeq (RChar word_char) (RSeq (RChar word_char) (ROpt (RChar word_char))))"

text \<open>The group \<open>\w+([.-]?\w+)*\<close>, which the pattern uses on both sides of the at sign.\<close>

definition dotted_words :: regex where
  "dotted_words =
     RSeq (RPlus (RChar word_char))
          (RStar (RSeq (ROpt (RChar dot_or_dash)) (RPlus (RChar word_char))))"

text \<open>The \<open>match\<close> pattern of the email path.\<close>

definition email_pattern :: regex where
  "email_pattern = RSeq dotted_words (RSeq (RChar is_at) (RSeq dotted_words (RPlus dot_suffix)))"

subsection \<open>Validators of the paths\<close>

text \<open>
  The validators that the schema declares on the paths of the record: \<open>required\<close> and
  \<open>maxlength\<close> on \<open>name\<close>, \<open>required\<close> and \<open>match\<close> on \<open>email\<close>, \<open>minlength\<close> on
  \<open>password\<close>, \<open>enum\<close> on the preferences. Each error is the path and its message. The
  other paths with a validator (\<open>phone\<close>, \<open>gender\<close>) keep their defaults in the code
  modelled here, and the defaults pass.
\<close>

definition name_errors :: "user \<Rightarrow> string list" where
  "name_errors u =
     (case name u of
        None \<Rightarrow> [''name: Name is required'']
      | Some n \<Rightarrow>
          if n = [] then [''name: Name is required'']
          else if length n > 100 then [''name: Name cannot exceed 100 characters'']
          else [])"

definition email_errors :: "user \<Rightarrow> string list" where
  "email_errors u =
     (case email u of
        None \<Rightarrow> [''email: Email is required'']
      | Some e \<Rightarrow>
          if e = [] then [''email: Email is required'']
          else if \<not> regex_test email_pattern e then [''email: Please enter a valid email'']
          else [])"

definition password_errors :: "user \<Rightarrow> string list" where
  "password_errors u =
     (case password u of
        None \<Rightarrow> []
      | Some p \<Rightarrow>
          if length p < 8 then [''password: Password must be at least 8 characters''] else [])"

definition enum_errors :: "string \<Rightarrow> string list \<Rightarrow> string \<Rightarrow> string list" where
  "enum_errors path allowed v =
     (if v \<in> set allowed then [] else [path @ '': not a valid enum value''])"

definition validateUser :: "user \<Rightarrow> string list" where
  "validateUser u =
     name_errors u @ email_errors u @ password_errors u
     @ enum_errors ''preferences.currency''
         [''USD'', ''INR'', ''EUR'', ''GBP'', ''JPY'', ''CAD'', ''AUD''] (currency u)
     @ enum_errors ''preferences.theme'' [''light'', ''dark'', ''auto''] (theme u)
     @ enum_errors ''preferences.language'' [''en'', ''hi'', ''es'', ''fr'', ''de''] (language u)"

subsection \<open>New documents\<close>

text \<open>
  A document as the schema's defaults make it; \<open>oid\<close> is the \<open>_id\<close> generated for it.
\<close>

definition new_user :: "nat \<Rightarrow> time \<Rightarrow> user" where
  "new_user oid now =
     \<lparr>uid = oid, name = None, email = None, password = None, avatar = None,
      isEmailVerified = False,
      emailVerificationToken = None, emailVerificationExpires = None,
      passwordResetToken = None, passwordResetExpires = None,
      googleId = None, facebookId = None,
      currency = ''INR'', theme = ''light'', language = ''en'',
      lastLogin = now, loginAttempts = 0, lockUntil = None,
      isActive = True, isGuest = False\<rparr>"

text \<open>
  \<open>save()\<close> of a new document without a password: validation first, then the insert,
  which the unique indexes on \<open>_id\<close> and \<open>email\<close> can reject.
\<close>

definition save_new :: "user \<Rightarrow> store \<Rightarrow> error + (user \<times> store)" where
  "save_new d st =
     (if validateUser d \<noteq> [] then Inl (ValidationError (validateUser d))
      else if uid d \<in> set (map uid st) then Inl (DuplicateKey ''_id'')
      else if email d \<in> set (map email st) then Inl (DuplicateKey ''email'')
      else Inr (d, st @ [d]))"

section \<open>Routes\<close>

subsection \<open>POST /register\<close>

text \<open>
  The handler reads \<open>name\<close>, \<open>email\<close> and \<open>password\<close> from the body and never reads or
  writes the collection.
\<close>

definition register_handler ::
  "time \<Rightarrow> string option \<Rightarrow> string option \<Rightarrow> string option \<Rightarrow> store \<Rightarrow> response \<times> store" where
  "register_handler now nm em pw st =
     (if \<not> truthy nm \<or> \<not> truthy em \<or> \<not> truthy pw
      then (\<lparr>status = 400, body = error_body ''Name, email, and password are required''\<rparr>, st)
      else
        let demoUser = Plain [(''_id'', JStr (''demo_'' @ decimal now)),
                              (''name'', JStr (the nm)),
                              (''email'', JStr (the em)),
                              (''isEmailVerified'', JBool True),
                              (''isActive'', JBool True),
                              (''createdAt'', JNum now)]
        in (\<lparr>status = 201,
             body = session_body ''Demo account created successfully! (MongoDB not connected)''
                      (sanitizeUser now demoUser) (generateTokens demoUser)\<rparr>, st))"

subsection \<open>POST /login\<close>

text \<open>
  \<open>errors\<close> is \<open>validationResult(req)\<close>, the outcome of the validation chain that runs before
  the handler; \<open>connected\<close> is \<open>mongoose.connection.readyState\<close>; \<open>em\<close> and \<open>pw\<close> are the body
  fields after the chain's sanitizers.
\<close>

definition validation_failed :: "string list \<Rightarrow> response" where
  "validation_failed errors =
     \<lparr>status = 400,
      body = JObj [(''status'', JStr ''error''), (''message'', JStr ''Validation failed''),
                   (''errors'', JArr (map (\<lambda>e. JObj [(''msg'', JStr e)]) errors))]\<rparr>"

definition takeWhile_not_at :: "string \<Rightarrow> string" where
  "takeWhile_not_at s = takeWhile (\<lambda>c. c \<noteq> CHR ''@'') s"

definition login_handler ::
  "(string \<Rightarrow> string \<Rightarrow> bool) \<Rightarrow> bool \<Rightarrow> time \<Rightarrow> string list \<Rightarrow> string \<Rightarrow> string option
     \<Rightarrow> store \<Rightarrow> response \<times> store" where
  "login_handler bcrypt_compare connected now errors em pw st =
     (if errors \<noteq> [] then (validation_failed errors, st)
      else if \<not> connected then
        let demoUser = Plain [(''_id'', JStr (''demo_'' @ decimal now)),
                              (''name'', JStr (takeWhile_not_at em)),
                              (''email'', JStr em),
                              (''isEmailVerified'', JBool True),
                              (''isActive'', JBool True),
                              (''createdAt'', JNum now)]
        in (\<lparr>status = 200,
             body = session_body ''Demo login successful! (MongoDB not connected)''
                      (sanitizeUser now demoUser) (generateTokens demoUser)\<rparr>, st)
      else
        (case findByCredentials bcrypt_compare now em pw st of
           (Inr usr, st') \<Rightarrow>
             (\<lparr>status = 200,
               body = session_body ''Login successful''
                        (sanitizeUser now (Doc usr)) (generateTokens (Doc usr))\<rparr>, st')
         | (Inl err, st') \<Rightarrow>
             (\<lparr>status = 401,
               body = error_body (if message err = [] then ''Login failed'' else message err)\<rparr>,
              st')))"

subsection \<open>POST /guest\<close>

text \<open>
  The \<open>guestData\<close> of the request body: absent, \<open>null\<close>, or an object of which
  \<open>createGuestUser\<close> reads \<open>currency\<close> and \<open>theme\<close>.
\<close>

datatype guest_data = GUndefined | GNull | GObj "string option" "string option"

definition createGuestUser :: "nat \<Rightarrow> time \<Rightarrow> guest_data \<Rightarrow> store \<Rightarrow> error + (user \<times> store)" where
  "createGuestUser oid now guestData st =
     (case (case guestData of GUndefined \<Rightarrow> GObj None None | g \<Rightarrow> g) of
        GObj cur thm \<Rightarrow>
          save_new ((new_user oid now)
                      \<lparr>name := Some (trim ''Guest User''),
                       email := Some (emailSetter (''guest_'' @ decimal now @ ''@expensetracker.local'')),
                       isGuest := True,
                       isEmailVerified := True,
                       currency := (if truthy cur then the cur else ''INR''),
                       theme := (if truthy thm then the thm else ''light'')\<rparr>) st
      | _ \<Rightarrow> Inl (TypeError ''Cannot read properties of null (reading currency)''))"

text \<open>\<open>development\<close> is \<open>process.env.NODE_ENV === 'development'\<close>.\<close>

definition guest_handler ::
  "bool \<Rightarrow> nat \<Rightarrow> time \<Rightarrow> guest_data \<Rightarrow> store \<Rightarrow> response \<times> store" where
  "guest_handler development oid now guestData st =
     (case createGuestUser oid now guestData st of
        Inr (usr, st') \<Rightarrow>
          (\<lparr>status = 201,
            body = session_body ''Guest access granted''
                     (sanitizeUser now (Doc usr)) (generateTokens (Doc usr))\<rparr>, st')
      | Inl err \<Rightarrow>
          (\<lparr>status = 500,
            body = JObj [(''status'', JStr ''error''),
                         (''message'', JStr ''Guest access failed''),
                         (''error'', JStr (if development then message err
                                           else ''Internal server error''))]\<rparr>, st))"

subsection \<open>POST /forgot-password\<close>

text \<open>
  \<open>sha256\<close> is the hex digest of \<open>crypto.createHash('sha256')\<close>, \<open>resetToken\<close> the hex string
  of \<open>crypto.randomBytes(32)\<close>, and \<open>mail\<close> the outcome of the awaited \<open>sendEmail\<close> call:
  \<open>None\<close> when it returns, \<open>Some err\<close> when it throws. Both saves run with
  \<open>validateBeforeSave: false\<close> and write the two reset paths.
\<close>

definition createPasswordResetToken :: "(string \<Rightarrow> string) \<Rightarrow> time \<Rightarrow> string \<Rightarrow> user \<Rightarrow> user" where
  "createPasswordResetToken sha256 now resetToken u =
     u\<lparr>passwordResetToken := Some (sha256 resetToken),
       passwordResetExpires := Some (now + 10 * 60 * 1000)\<rparr>"

definition generic_reset_message :: string where
  "generic_reset_message =
     ''If an account with that email exists, a password reset link has been sent.''"

definition forgot_password_handler ::
  "(string \<Rightarrow> string) \<Rightarrow> time \<Rightarrow> string list \<Rightarrow> string \<Rightarrow> string \<Rightarrow> error option \<Rightarrow> store
     \<Rightarrow> response \<times> store" where
  "forgot_password_handler sha256 now errors em resetToken mail st =
     (if errors \<noteq> [] then (validation_failed errors, st)
      else
        (case findOne (\<lambda>u. email u = Some (emailSetter em)) st of
           None \<Rightarrow> (\<lparr>status = 200, body = message_body generic_reset_message\<rparr>, st)
         | Some usr \<Rightarrow>
             let st1 = doc_updateOne usr (createPasswordResetToken sha256 now resetToken) st
             in (case mail of
                   None \<Rightarrow> (\<lparr>status = 200, body = message_body generic_reset_message\<rparr>, st1)
                 | Some emailError \<Rightarrow>
                     (\<lparr>status = 500, body = error_body ''Failed to send password reset email''\<rparr>,
                      doc_updateOne usr
                        (\<lambda>v. v\<lparr>passwordResetToken := None, passwordResetExpires := None\<rparr>)
                        st1))))"

subsection \<open>POST /reset-password\<close>

text \<open>
  \<open>bcrypt_hash\<close> is \<open>bcrypt.hash\<close> with the configured rounds. \<open>save()\<close> validates the
  document with the new plain password; the pre-save hooks then replace the password by
  its hash and clear the reset paths.
\<close>

definition has_valid_reset_token :: "string \<Rightarrow> time \<Rightarrow> user \<Rightarrow> bool" where
  "has_valid_reset_token hashedToken now u =
     (passwordResetToken u = Some hashedToken
      \<and> (case passwordResetExpires u of None \<Rightarrow> False | Some t \<Rightarrow> t > now))"

definition reset_password_handler ::
  "(string \<Rightarrow> string) \<Rightarrow> (string \<Rightarrow> string) \<Rightarrow> time \<Rightarrow> string list \<Rightarrow> string \<Rightarrow> string \<Rightarrow> store
     \<Rightarrow> response \<times> store" where
  "reset_password_handler sha256 bcrypt_hash now errors token pw st =
     (if errors \<noteq> [] then (validation_failed errors, st)
      else
        let hashedToken = sha256 token in
        (case findOne (has_valid_reset_token hashedToken now) st of
           None \<Rightarrow> (\<lparr>status = 400, body = error_body ''Invalid or expired reset token''\<rparr>, st)
         | Some usr \<Rightarrow>
             if validateUser (usr\<lparr>password := Some pw, passwordResetToken := None,
                                  passwordResetExpires := None\<rparr>) \<noteq> []
             then (\<lparr>status = 500, body = error_body ''Password reset failed''\<rparr>, st)
             else
               let saved = usr\<lparr>password := Some (bcrypt_hash pw), passwordResetToken := None,
                                passwordResetExpires := None\<rparr>;
                   st1 = doc_updateOne usr
                           (\<lambda>v. v\<lparr>password := Some (bcrypt_hash pw), passwordResetToken := None,
                                   passwordResetExpires := None\<rparr>) st
               in (\<lparr>status = 200,
                    body = session_body ''Password reset successfully''
                             (sanitizeUser now (Doc saved)) (generateTokens (Doc saved))\<rparr>,
                   st1)))"

subsection \<open>GET /me\<close>

text \<open>\<open>req_user\<close> is the document that \<open>authenticateToken\<close> attached to the request.\<close>

definition me_handler :: "time \<Rightarrow> user_value \<Rightarrow> response" where
  "me_handler now req_user =
     \<lparr>status = 200,
      body = JObj [(''status'', JStr ''success''),
                   (''data'', JObj [(''user'', JObj (sanitizeUser now req_user))])]\<rparr>"

section \<open>OAuth verify callbacks\<close>

text \<open>
  The provider profile: \<open>id\<close>, \<open>displayName\<close>, the values of \<open>emails\<close> and of \<open>photos\<close>
  (\<open>None\<close> when the array is absent), and the two parts of \<open>name\<close>.
\<close>

record profile =
  p_id :: string
  p_displayName :: "string option"
  p_emails :: "string list option"
  p_photos :: "string list option"
  p_givenName :: "string option"
  p_familyName :: "string option"

definition first_value :: "string list \<Rightarrow> string option" where
  "first_value xs = (case xs of [] \<Rightarrow> None | x # _ \<Rightarrow> Some x)"

text \<open>\<open>a || b\<close> on values that are strings or absent.\<close>

definition or_else :: "string option \<Rightarrow> string option \<Rightarrow> string option" where
  "or_else a b = (if truthy a then a else b)"

text \<open>
  Linking sets \<open>isEmailVerified\<close>; when that changes the path, the pre-save hook clears the
  verification token.
\<close>

definition mark_verified :: "user \<Rightarrow> user \<Rightarrow> user" where
  "mark_verified loaded v =
     (if isEmailVerified loaded then v\<lparr>isEmailVerified := True\<rparr>
      else v\<lparr>isEmailVerified := True, emailVerificationToken := None,
             emailVerificationExpires := None\<rparr>)"

definition oauth_result :: "error + (user \<times> store) \<Rightarrow> store \<Rightarrow> (error + user) \<times> store" where
  "oauth_result r st = (case r of Inl err \<Rightarrow> (Inl err, st) | Inr (d, st') \<Rightarrow> (Inr d, st'))"


text \<open>
  The name of a new Facebook account:
  \<open>profile.displayName || `${profile.name?.givenName} ${profile.name?.familyName}`\<close>; an
  absent part is printed as \<open>undefined\<close>.
\<close>

definition printed :: "string option \<Rightarrow> string" where
  "printed v = (case v of None \<Rightarrow> ''undefined'' | Some s \<Rightarrow> s)"

definition facebook_name :: "profile \<Rightarrow> string" where
  "facebook_name prof =
     (if truthy (p_displayName prof) then the (p_displayName prof)
      else printed (p_givenName prof) @ '' '' @ printed (p_familyName prof))"

definition facebook_verify :: "nat \<Rightarrow> time \<Rightarrow> profile \<Rightarrow> store \<Rightarrow> (error + user) \<times> store" where
  "facebook_verify oid now prof st =
     (case findOne (\<lambda>u. facebookId u = Some (p_id prof)) st of
        Some usr \<Rightarrow>
          (Inr (usr\<lparr>lastLogin := now\<rparr>), doc_updateOne usr (\<lambda>v. v\<lparr>lastLogin := now\<rparr>) st)
      | None \<Rightarrow>
          (case (case Option.bind (p_emails prof) first_value of
                   None \<Rightarrow> None
                 | Some e \<Rightarrow> findOne (\<lambda>u. email u = Some (emailSetter e)) st) of
             Some usr \<Rightarrow>
               (case p_photos prof of
                  None \<Rightarrow> (Inl (TypeError ''Cannot read properties of undefined (reading 0)''), st)
                | Some photos \<Rightarrow>
                    let link = (\<lambda>v. mark_verified usr
                                 (v\<lparr>facebookId := Some (p_id prof),
                                    avatar := or_else (first_value photos) (avatar usr),
                                    lastLogin := now\<rparr>))
                    in (Inr (link usr), doc_updateOne usr link st))
           | None \<Rightarrow>
               let em = (case Option.bind (p_emails prof) first_value of
                           Some e \<Rightarrow> e
                         | None \<Rightarrow> ''facebook_'' @ p_id prof @ ''@facebook.local'')
               in oauth_result
                    (save_new ((new_user oid now)
                       \<lparr>name := Some (trim (facebook_name prof)),
                        email := Some (emailSetter em),
                        facebookId := Some (p_id prof),
                        avatar := Option.bind (p_photos prof) first_value,
                        isEmailVerified := (Option.bind (p_emails prof) first_value \<noteq> None),
                        currency := ''INR'', theme := ''light'', language := ''en''\<rparr>) st)
                    st))"

subsection \<open>Reading a response\<close>

text \<open>The \<open>data.user\<close> object of a response body, when the body has one.\<close>

definition user_of_response :: "response \<Rightarrow> (string \<times> json) list option" where
  "user_of_response r =
     (case body r of
        JObj fs \<Rightarrow>
          (case map_of fs ''data'' of
             Some (JObj ds) \<Rightarrow>
               (case map_of ds ''user'' of Some (JObj obj) \<Rightarrow> Some obj | _ \<Rightarrow> None)
           | _ \<Rightarrow> None)
      | _ \<Rightarrow> None)"

text \<open>The password hash and the token hashes with their expiry times.\<close>

definition secret_fields :: "string list" where
  "secret_fields =
     [''password'', ''passwordResetToken'', ''passwordResetExpires'',
      ''emailVerificationToken'', ''emailVerificationExpires'']"

definition hides_secrets :: "(string \<times> json) list option \<Rightarrow> bool" where
  "hides_secrets obj =
     (case obj of None \<Rightarrow> True | Some fs \<Rightarrow> fst ` set fs \<inter> set secret_fields = {})"

text \<open>A scenario: a sequence of login calls with the same credentials, one per clock value.\<close>

fun login_attempts ::
  "(string \<Rightarrow> string \<Rightarrow> bool) \<Rightarrow> string \<Rightarrow> string option \<Rightarrow> time list \<Rightarrow> store
     \<Rightarrow> (error + user) list \<times> store" where
  "login_attempts bcrypt_compare ident pw [] st = ([], st)"
| "login_attempts bcrypt_compare ident pw (t # ts) st =
     (let (r, st1) = findByCredentials bcrypt_compare t ident pw st;
          (rs, st2) = login_attempts bcrypt_compare ident pw ts st1
      in (r # rs, st2))"

subsection \<open>Fixtures for concrete instances\<close>

text \<open>
  Stand-ins for \<open>bcrypt\<close> and the digest, and a stored account, used only where a statement is
  evaluated at a concrete input.
\<close>

definition demo_compare :: "string \<Rightarrow> string \<Rightarrow> bool" where
  "demo_compare candidate h = (h = ''bcrypt:'' @ candidate)"

definition demo_sha256 :: "string \<Rightarrow> string" where
  "demo_sha256 s = ''sha256:'' @ s"

definition demo_hash :: "string \<Rightarrow> string" where
  "demo_hash p = ''bcrypt:'' @ p"

definition alice :: user where
  "alice = \<lparr>uid = 1, name = Some ''Alice'', email = Some ''alice@ex.io'',
     password = Some ''bcrypt:Secret#123'', avatar = None, isEmailVerified = False,
     emailVerificationToken = None, emailVerificationExpires = None,
     passwordResetToken = None, passwordResetExpires = None,
     googleId = None, facebookId = None,
     currency = ''INR'', theme = ''light'', language = ''en'',
     lastLogin = 0, loginAttempts = 0, lockUntil = None, isActive = True, isGuest = False\<rparr>"

section \<open>Properties\<close>

subsection \<open>The collection\<close>

lemma updateOne_uids:
  "(\<And>v. uid (f v) = uid v) \<Longrightarrow> map uid (updateOne P f st) = map uid st"
  by (induction st) auto

lemma find_doc_updateOne:
  assumes "find P st = Some u" and "distinct (map uid st)" and "P (f u)"
  shows "find P (updateOne (\<lambda>v. uid v = uid u) f st) = Some (f u)"
  using assms
proof (induction st)
  case Nil
  then show ?case by simp
next
  case (Cons v vs)
  show ?case
  proof (cases "P v")
    case True
    with Cons.prems show ?thesis by simp
  next
    case False
    with Cons.prems have in_vs: "find P vs = Some u" by simp
    then have "u \<in> set vs" by (auto simp: find_Some_iff)
    with Cons.prems(2) have "uid v \<noteq> uid u" by auto
    with False in_vs Cons show ?thesis by simp
  qed
qed

lemma lookup_doc_updateOne:
  assumes "lookupCredentials ident st = Some u" and "distinct (map uid st)"
    and "email (f u) = email u" and "googleId (f u) = googleId u"
    and "facebookId (f u) = facebookId u"
  shows "lookupCredentials ident (doc_updateOne u f st) = Some (f u)"
proof (cases "includes_at ident")
  case True
  with assms(1) have f: "find (\<lambda>u. email u = Some (emailSetter ident)) st = Some u"
    by (simp add: lookupCredentials_def findOne_def)
  then have "email u = Some (emailSetter ident)" by (auto simp: find_Some_iff)
  with assms(3) have "email (f u) = Some (emailSetter ident)" by simp
  from find_doc_updateOne [OF f assms(2), of f, OF this] True show ?thesis
    by (simp add: lookupCredentials_def findOne_def doc_updateOne_def)
next
  case False
  let ?P = "\<lambda>u. googleId u = Some ident \<or> facebookId u = Some ident"
  from False assms(1) have f: "find ?P st = Some u"
    by (simp add: lookupCredentials_def findOne_def)
  then have "?P u" by (auto simp: find_Some_iff)
  with assms(4,5) have "?P (f u)" by simp
  from find_doc_updateOne [OF f assms(2), of f, OF this] False show ?thesis
    by (simp add: lookupCredentials_def findOne_def doc_updateOne_def)
qed

lemma doc_updateOne_uids:
  "(\<And>v. uid (f v) = uid v) \<Longrightarrow> map uid (doc_updateOne u f st) = map uid st"
  by (simp add: doc_updateOne_def updateOne_uids)

subsection \<open>Credentials and lockout\<close>

lemma lookup_after_success:
  assumes "lookupCredentials ident st = Some u" and "distinct (map uid st)"
  shows "lookupCredentials ident
           (doc_updateOne u (\<lambda>v. v\<lparr>lastLogin := now\<rparr>)
              (if loginAttempts u > 0 then resetLoginAttempts u st else st))
         = Some (u\<lparr>loginAttempts := 0, lockUntil := None, lastLogin := now\<rparr>)
         \<or> (loginAttempts u = 0 \<and>
             lookupCredentials ident
               (doc_updateOne u (\<lambda>v. v\<lparr>lastLogin := now\<rparr>) st)
             = Some (u\<lparr>lastLogin := now\<rparr>))"
proof (cases "loginAttempts u > 0")
  case True
  let ?r = "\<lambda>v. v\<lparr>loginAttempts := 0, lockUntil := None\<rparr>"
  let ?st1 = "doc_updateOne u ?r st"
  have l1: "lookupCredentials ident ?st1 = Some (?r u)"
    by (rule lookup_doc_updateOne [OF assms]) simp_all
  have d1: "distinct (map uid ?st1)"
    using assms(2) by (simp add: doc_updateOne_uids)
  have same: "doc_updateOne u (\<lambda>v. v\<lparr>lastLogin := now\<rparr>) ?st1
            = doc_updateOne (?r u) (\<lambda>v. v\<lparr>lastLogin := now\<rparr>) ?st1"
    by (simp add: doc_updateOne_def)
  have "lookupCredentials ident (doc_updateOne (?r u) (\<lambda>v. v\<lparr>lastLogin := now\<rparr>) ?st1)
        = Some ((?r u)\<lparr>lastLogin := now\<rparr>)"
    by (rule lookup_doc_updateOne [OF l1 d1]) simp_all
  with True same show ?thesis by (simp add: resetLoginAttempts_def)
next
  case False
  have "lookupCredentials ident (doc_updateOne u (\<lambda>v. v\<lparr>lastLogin := now\<rparr>) st)
        = Some (u\<lparr>lastLogin := now\<rparr>)"
    by (rule lookup_doc_updateOne [OF assms]) simp_all
  with False show ?thesis by simp
qed

text \<open>
  Claim C10. For a stored account that is active and not locked, \<open>findByCredentials\<close> with
  a falsy password (\<open>null\<close>, \<open>undefined\<close> or the empty string) returns the account and
  leaves its stored login-attempt counter at 0. No password comparison takes part in the
  result: it is the same for every comparison function, whatever the stored hash.
\<close>

theorem falsy_password_skips_comparison:
  assumes "lookupCredentials ident st = Some u" and "distinct (map uid st)"
    and "isActive u" and "\<not> isLocked now u" and "\<not> truthy pw"
  shows "\<exists>st' v. findByCredentials bcrypt_compare now ident pw st
                   = (Inr (u\<lparr>lastLogin := now\<rparr>), st')
               \<and> lookupCredentials ident st' = Some v \<and> uid v = uid u
               \<and> loginAttempts v = 0 \<and> lastLogin v = now
               \<and> findByCredentials other_compare now ident pw st
                   = findByCredentials bcrypt_compare now ident pw st"
proof -
  let ?st' = "doc_updateOne u (\<lambda>v. v\<lparr>lastLogin := now\<rparr>)
                (if loginAttempts u > 0 then resetLoginAttempts u st else st)"
  have r: "findByCredentials c now ident pw st = (Inr (u\<lparr>lastLogin := now\<rparr>), ?st')" for c
    using assms by (simp add: findByCredentials_def Let_def)
  from lookup_after_success [OF assms(1,2), of now]
  obtain v where "lookupCredentials ident ?st' = Some v" "uid v = uid u"
    "loginAttempts v = 0" "lastLogin v = now"
    by (auto split: if_splits)
  with r show ?thesis by auto
qed

theorem falsy_password_skips_comparison_witness:
  "lookupCredentials ''alice@ex.io'' [alice\<lparr>loginAttempts := 3\<rparr>]
     = Some (alice\<lparr>loginAttempts := 3\<rparr>)
   \<and> \<not> truthy (Some [])
   \<and> (\<exists>st' v. findByCredentials demo_compare 9000 ''alice@ex.io'' (Some [])
                  [alice\<lparr>loginAttempts := 3\<rparr>]
                = (Inr (alice\<lparr>loginAttempts := 3, lastLogin := 9000\<rparr>), st')
          \<and> lookupCredentials ''alice@ex.io'' st' = Some v
          \<and> loginAttempts v = 0 \<and> lastLogin v = 9000
          \<and> findByCredentials (=) 9000 ''alice@ex.io'' (Some [])
                  [alice\<lparr>loginAttempts := 3\<rparr>]
             = findByCredentials demo_compare 9000 ''alice@ex.io'' (Some [])
                  [alice\<lparr>loginAttempts := 3\<rparr>])"
proof -
  let ?a = "alice\<lparr>loginAttempts := 3\<rparr>"
  have found: "lookupCredentials ''alice@ex.io'' [?a] = Some ?a"
    by (simp add: lookupCredentials_def includes_at_def findOne_def alice_def emailSetter_def
        toLowerCase_def trim_def is_space_def lower_char_def between_def)
  have ids: "distinct (map uid [?a])" by simp
  have active: "isActive ?a" by (simp add: alice_def)
  have unlocked: "\<not> isLocked 9000 ?a" by (simp add: alice_def isLocked_def)
  have falsy: "\<not> truthy (Some [])" by (simp add: truthy_def)
  from falsy_password_skips_comparison [where bcrypt_compare = demo_compare
      and other_compare = "(=)", OF found ids active unlocked falsy]
  show ?thesis using found falsy by auto
qed

lemma failed_attempt:
  assumes "lookupCredentials ident st = Some u" and "\<not> isLocked now u" and "isActive u"
    and "password u = Some h" and "w \<noteq> []" and "\<not> cmp w h"
  shows "findByCredentials cmp now ident (Some w) st
         = (Inl InvalidCredentials, incLoginAttempts now u st)"
  using assms by (simp add: findByCredentials_def truthy_def comparePassword_def)

lemma lookup_inc_unlocked:
  assumes "lookupCredentials ident st = Some u" and "distinct (map uid st)"
    and "lockUntil u = None"
  shows "lookupCredentials ident (incLoginAttempts now u st)
         = Some (u\<lparr>loginAttempts := loginAttempts u + 1,
                  lockUntil := (if loginAttempts u + 1 \<ge> 5
                                then Some (now + 2 * 60 * 60 * 1000) else None)\<rparr>)"
proof (cases "loginAttempts u + 1 \<ge> 5")
  case True
  let ?f = "\<lambda>v. v\<lparr>loginAttempts := loginAttempts v + 1,
                     lockUntil := Some (now + 2 * 60 * 60 * 1000)\<rparr>"
  have "lookupCredentials ident (doc_updateOne u ?f st) = Some (?f u)"
    by (rule lookup_doc_updateOne [OF assms(1,2)]) simp_all
  with True assms(3) show ?thesis
    by (simp add: incLoginAttempts_def isLocked_def)
next
  case False
  let ?f = "\<lambda>v. v\<lparr>loginAttempts := loginAttempts v + 1\<rparr>"
  have "lookupCredentials ident (doc_updateOne u ?f st) = Some (?f u)"
    by (rule lookup_doc_updateOne [OF assms(1,2)]) simp_all
  with False assms(3) show ?thesis
    by (simp add: incLoginAttempts_def isLocked_def)
qed

lemma incLoginAttempts_uids: "map uid (incLoginAttempts now u st) = map uid st"
  by (simp add: incLoginAttempts_def doc_updateOne_uids)

lemma failed_attempt_unlocked:
  assumes "lookupCredentials ident st = Some u" and "distinct (map uid st)"
    and "lockUntil u = None" and "isActive u"
    and "password u = Some h" and "w \<noteq> []" and "\<not> cmp w h"
  shows "\<exists>st'. findByCredentials cmp now ident (Some w) st = (Inl InvalidCredentials, st')
           \<and> distinct (map uid st')
           \<and> lookupCredentials ident st'
              = Some (u\<lparr>loginAttempts := loginAttempts u + 1,
                  lockUntil := (if loginAttempts u + 1 \<ge> 5
                                then Some (now + 2 * 60 * 60 * 1000) else None)\<rparr>)"
proof -
  from assms(3) have "\<not> isLocked now u" by (simp add: isLocked_def)
  from failed_attempt [of ident st u now h w cmp, OF assms(1) this assms(4-7)]
    lookup_inc_unlocked [OF assms(1-3), of now] assms(2)
  show ?thesis by (simp add: incLoginAttempts_uids)
qed

text \<open>
  Claim C1. Take a password account whose failure counter is clean. Five calls with the
  right email and a wrong password are each answered with \<open>InvalidCredentials\<close>; the fifth
  stores the counter 5 and \<open>lockUntil = now + 2h\<close>. Any call before that instant is answered
  with \<open>AccountLocked\<close>, the correct password included, and writes nothing. A call at or
  after that instant with the correct password succeeds and stores the counter 0 and no
  lock.
\<close>

theorem five_failures_lock_account:
  assumes found: "lookupCredentials ident st = Some u" and ids: "distinct (map uid st)"
    and active: "isActive u" and hash: "password u = Some h" "h \<noteq> []"
    and clean: "loginAttempts u = 0" "lockUntil u = None"
    and wrong: "w \<noteq> []" "\<not> bcrypt_compare w h"
    and good: "g \<noteq> []" "bcrypt_compare g h"
  shows "\<exists>st5 u5.
           login_attempts bcrypt_compare ident (Some w) [t1, t2, t3, t4, t5] st
             = (replicate 5 (Inl InvalidCredentials), st5)
         \<and> lookupCredentials ident st5 = Some u5
         \<and> loginAttempts u5 = 5 \<and> lockUntil u5 = Some (t5 + 2 * 60 * 60 * 1000)
         \<and> (\<forall>t6. t6 < t5 + 2 * 60 * 60 * 1000 \<longrightarrow>
               findByCredentials bcrypt_compare t6 ident (Some g) st5 = (Inl AccountLocked, st5))
         \<and> (\<forall>t7. t7 \<ge> t5 + 2 * 60 * 60 * 1000 \<longrightarrow>
               (\<exists>st7 v. findByCredentials bcrypt_compare t7 ident (Some g) st5
                          = (Inr (u5\<lparr>lastLogin := t7\<rparr>), st7)
                    \<and> uid u5 = uid u
                    \<and> lookupCredentials ident st7 = Some v \<and> uid v = uid u
                    \<and> loginAttempts v = 0 \<and> lockUntil v = None))"
proof -
  let ?fail = "\<lambda>t s. findByCredentials bcrypt_compare t ident (Some w) s"
  let ?bump = "\<lambda>n (x::user). x\<lparr>loginAttempts := n, lockUntil := None\<rparr>"
  have step: "\<exists>st'. ?fail t s = (Inl InvalidCredentials, st')
           \<and> distinct (map uid st')
           \<and> lookupCredentials ident st'
              = Some (x\<lparr>loginAttempts := loginAttempts x + 1,
                  lockUntil := (if loginAttempts x + 1 \<ge> 5
                                then Some (t + 2 * 60 * 60 * 1000) else None)\<rparr>)"
    if "lookupCredentials ident s = Some x" "distinct (map uid s)" "lockUntil x = None"
      "isActive x" "password x = Some h" for s x t
    using that wrong
    by (rule failed_attempt_unlocked [where cmp = bcrypt_compare and w = w and h = h])
  from step [OF found ids clean(2) active hash(1), of t1]
  obtain st1 where s1: "?fail t1 st = (Inl InvalidCredentials, st1)"
    and d1: "distinct (map uid st1)"
    and l1: "lookupCredentials ident st1 = Some (?bump 1 u)"
    using clean by auto
  from step [OF l1 d1, of t2]
  obtain st2 where s2: "?fail t2 st1 = (Inl InvalidCredentials, st2)"
    and d2: "distinct (map uid st2)"
    and l2: "lookupCredentials ident st2 = Some (?bump 2 u)"
    using active hash by auto
  from step [OF l2 d2, of t3]
  obtain st3 where s3: "?fail t3 st2 = (Inl InvalidCredentials, st3)"
    and d3: "distinct (map uid st3)"
    and l3: "lookupCredentials ident st3 = Some (?bump 3 u)"
    using active hash by auto
  from step [OF l3 d3, of t4]
  obtain st4 where s4: "?fail t4 st3 = (Inl InvalidCredentials, st4)"
    and d4: "distinct (map uid st4)"
    and l4: "lookupCredentials ident st4 = Some (?bump 4 u)"
    using active hash by auto
  let ?u5 = "u\<lparr>loginAttempts := 5, lockUntil := Some (t5 + 2 * 60 * 60 * 1000)\<rparr>"
  from step [OF l4 d4, of t5]
  obtain st5 where s5: "?fail t5 st4 = (Inl InvalidCredentials, st5)"
    and d5: "distinct (map uid st5)"
    and l5: "lookupCredentials ident st5 = Some ?u5"
    using active hash by auto
  have run: "login_attempts bcrypt_compare ident (Some w) [t1, t2, t3, t4, t5] st
             = (replicate 5 (Inl InvalidCredentials), st5)"
    using s1 s2 s3 s4 s5 by (simp add: numeral_eq_Suc)
  have locked: "findByCredentials bcrypt_compare t6 ident (Some g) st5 = (Inl AccountLocked, st5)"
    if "t6 < t5 + 2 * 60 * 60 * 1000" for t6
    using that l5 by (simp add: findByCredentials_def isLocked_def)
  have after: "\<exists>st7 v. findByCredentials bcrypt_compare t7 ident (Some g) st5
                          = (Inr (?u5\<lparr>lastLogin := t7\<rparr>), st7)
                    \<and> lookupCredentials ident st7 = Some v \<and> uid v = uid u
                    \<and> loginAttempts v = 0 \<and> lockUntil v = None"
    if "t7 \<ge> t5 + 2 * 60 * 60 * 1000" for t7
  proof -
    let ?st7 = "doc_updateOne ?u5 (\<lambda>v. v\<lparr>lastLogin := t7\<rparr>)
                  (if loginAttempts ?u5 > 0 then resetLoginAttempts ?u5 st5 else st5)"
    have r: "findByCredentials bcrypt_compare t7 ident (Some g) st5
             = (Inr (?u5\<lparr>lastLogin := t7\<rparr>), ?st7)"
      using that l5 active hash good
      by (simp add: findByCredentials_def isLocked_def truthy_def comparePassword_def Let_def)
    from lookup_after_success [OF l5 d5, of t7]
    have "lookupCredentials ident ?st7
          = Some (?u5\<lparr>loginAttempts := 0, lockUntil := None, lastLogin := t7\<rparr>)"
      by simp
    with r show ?thesis by simp
  qed
  from run l5 locked after show ?thesis by simp
qed

lemma alice_found: "lookupCredentials ''alice@ex.io'' [alice] = Some alice"
  by (simp add: lookupCredentials_def includes_at_def findOne_def alice_def emailSetter_def
      toLowerCase_def trim_def is_space_def lower_char_def between_def)

theorem five_failures_lock_account_witness:
  "lookupCredentials ''alice@ex.io'' [alice] = Some alice
   \<and> \<not> demo_compare ''guess'' ''bcrypt:Secret#123''
   \<and> demo_compare ''Secret#123'' ''bcrypt:Secret#123''
   \<and> (\<exists>st5 u5.
         login_attempts demo_compare ''alice@ex.io'' (Some ''guess'')
           [1000, 2000, 3000, 4000, 5000] [alice]
           = (replicate 5 (Inl InvalidCredentials), st5)
       \<and> lookupCredentials ''alice@ex.io'' st5 = Some u5
       \<and> loginAttempts u5 = 5 \<and> lockUntil u5 = Some 7205000
       \<and> findByCredentials demo_compare 6000 ''alice@ex.io'' (Some ''Secret#123'') st5
           = (Inl AccountLocked, st5)
       \<and> (\<exists>st7 v. findByCredentials demo_compare 7205000 ''alice@ex.io''
                      (Some ''Secret#123'') st5 = (Inr (u5\<lparr>lastLogin := 7205000\<rparr>), st7)
             \<and> lookupCredentials ''alice@ex.io'' st7 = Some v
             \<and> loginAttempts v = 0 \<and> lockUntil v = None))"
proof -
  have found: "lookupCredentials ''alice@ex.io'' [alice] = Some alice"
    by (rule alice_found)
  have ids: "distinct (map uid [alice])" by simp
  have active: "isActive alice" by (simp add: alice_def)
  have hash: "password alice = Some ''bcrypt:Secret#123''" "''bcrypt:Secret#123'' \<noteq> []"
    by (simp_all add: alice_def)
  have clean: "loginAttempts alice = 0" "lockUntil alice = None"
    by (simp_all add: alice_def)
  have wrong: "''guess'' \<noteq> []" "\<not> demo_compare ''guess'' ''bcrypt:Secret#123''"
    by (simp_all add: demo_compare_def)
  have good: "''Secret#123'' \<noteq> []" "demo_compare ''Secret#123'' ''bcrypt:Secret#123''"
    by (simp_all add: demo_compare_def)
  from five_failures_lock_account [where bcrypt_compare = demo_compare
      and ?t1.0 = 1000 and ?t2.0 = 2000 and ?t3.0 = 3000 and ?t4.0 = 4000 and ?t5.0 = 5000,
      OF found ids active hash clean wrong good]
  obtain st5 u5 where
    run: "login_attempts demo_compare ''alice@ex.io'' (Some ''guess'')
           [1000, 2000, 3000, 4000, 5000] [alice]
           = (replicate 5 (Inl InvalidCredentials), st5)"
    and l5: "lookupCredentials ''alice@ex.io'' st5 = Some u5"
      "loginAttempts u5 = 5" "lockUntil u5 = Some (5000 + 2 * 60 * 60 * 1000)"
    and locked: "\<forall>t6. t6 < 5000 + 2 * 60 * 60 * 1000 \<longrightarrow>
      findByCredentials demo_compare t6 ''alice@ex.io'' (Some ''Secret#123'') st5
        = (Inl AccountLocked, st5)"
    and after: "\<forall>t7. t7 \<ge> 5000 + 2 * 60 * 60 * 1000 \<longrightarrow>
      (\<exists>st7 v. findByCredentials demo_compare t7 ''alice@ex.io'' (Some ''Secret#123'') st5
                   = (Inr (u5\<lparr>lastLogin := t7\<rparr>), st7)
             \<and> uid u5 = uid alice
             \<and> lookupCredentials ''alice@ex.io'' st7 = Some v \<and> uid v = uid alice
             \<and> loginAttempts v = 0 \<and> lockUntil v = None)"
    by blast
  from locked have six: "findByCredentials demo_compare 6000 ''alice@ex.io''
      (Some ''Secret#123'') st5 = (Inl AccountLocked, st5)"
    by simp
  from after have "\<exists>st7 v. findByCredentials demo_compare 7205000 ''alice@ex.io''
      (Some ''Secret#123'') st5 = (Inr (u5\<lparr>lastLogin := 7205000\<rparr>), st7)
      \<and> lookupCredentials ''alice@ex.io'' st7 = Some v
      \<and> loginAttempts v = 0 \<and> lockUntil v = None"
    by (drule_tac x = 7205000 in spec) auto
  with found wrong good run l5 six show ?thesis by auto
qed

subsection \<open>The email pattern\<close>

lemma nullable_sound: "nullable r \<Longrightarrow> in_lang r []"
proof (induction r)
  case (RSeq r s)
  then have "in_lang r []" "in_lang s []" by simp_all
  from in_lang.seq [OF this] show ?case by simp
qed (auto intro: in_lang.intros)

lemma deriv_sound: "in_lang (deriv c r) w \<Longrightarrow> in_lang r (c # w)"
proof (induction r arbitrary: w)
  case RNever
  then show ?case by (auto elim: in_lang.cases)
next
  case REmpty
  then show ?case by (auto elim: in_lang.cases)
next
  case (RChar P)
  then show ?case by (auto split: if_splits elim: in_lang.cases intro: in_lang.char)
next
  case (RAlt r s)
  from RAlt.prems have "in_lang (deriv c r) w \<or> in_lang (deriv c s) w"
    by (auto elim: in_lang.cases)
  with RAlt.IH show ?case by (auto intro: in_lang.intros)
next
  case (RSeq r s)
  have via_r: "in_lang (RSeq r s) (c # w)" if "in_lang (RSeq (deriv c r) s) w"
  proof -
    from that obtain u v where "w = u @ v" "in_lang (deriv c r) u" "in_lang s v"
      by (auto elim: in_lang.cases)
    with RSeq.IH(1) have "in_lang r (c # u)" by simp
    from in_lang.seq [OF this \<open>in_lang s v\<close>] \<open>w = u @ v\<close> show ?thesis by simp
  qed
  have via_s: "in_lang (RSeq r s) (c # w)" if "nullable r" "in_lang (deriv c s) w"
  proof -
    from that RSeq.IH(2) have "in_lang s (c # w)" by simp
    from in_lang.seq [OF nullable_sound [OF that(1)] this] show ?thesis by simp
  qed
  from RSeq.prems show ?case
    by (auto split: if_splits elim: in_lang.cases intro: via_r via_s)
next
  case (RStar r)
  from RStar.prems obtain u v where "w = u @ v" "in_lang (deriv c r) u" "in_lang (RStar r) v"
    by (auto elim: in_lang.cases)
  with RStar.IH have "in_lang r (c # u)" by simp
  from in_lang.star_more [OF this \<open>in_lang (RStar r) v\<close>] \<open>w = u @ v\<close> show ?case by simp
qed

lemma regex_test_sound: "regex_test r s \<Longrightarrow> in_lang r s"
  unfolding regex_test_def
proof (induction s arbitrary: r)
  case Nil
  then show ?case by (simp add: nullable_sound)
next
  case (Cons c s)
  then have "in_lang (deriv c r) s" by simp
  then show ?case by (rule deriv_sound)
qed

lemma nullable_complete: "in_lang r w \<Longrightarrow> w = [] \<Longrightarrow> nullable r"
  by (induction r w rule: in_lang.induct) simp_all

lemma deriv_complete: "in_lang r x \<Longrightarrow> x = c # w \<Longrightarrow> in_lang (deriv c r) w"
proof (induction r x arbitrary: w rule: in_lang.induct)
  case empty
  then show ?case by simp
next
  case (char P a)
  then show ?case by (auto intro: in_lang.empty)
next
  case (alt_left r u s)
  then show ?case by (auto intro: in_lang.alt_left)
next
  case (alt_right s u r)
  then show ?case by (auto intro: in_lang.alt_right)
next
  case (seq r u s v)
  show ?case
  proof (cases u)
    case Nil
    with seq.hyps(1) have "nullable r" by (simp add: nullable_complete)
    moreover from Nil seq.prems seq.IH(2) have "in_lang (deriv c s) w" by simp
    ultimately show ?thesis by (auto intro: in_lang.alt_right)
  next
    case (Cons a u')
    with seq.prems have "a = c" "w = u' @ v" by simp_all
    with Cons seq.IH(1) have "in_lang (deriv c r) u'" by simp
    from in_lang.seq [OF this seq.hyps(2)] \<open>w = u' @ v\<close>
    show ?thesis by (auto intro: in_lang.alt_left)
  qed
next
  case (star_none r)
  then show ?case by simp
next
  case (star_more r u v)
  show ?case
  proof (cases u)
    case Nil
    with star_more.prems star_more.IH(2) show ?thesis by simp
  next
    case (Cons a u')
    with star_more.prems have "a = c" "w = u' @ v" by simp_all
    with Cons star_more.IH(1) have "in_lang (deriv c r) u'" by simp
    from in_lang.seq [OF this star_more.hyps(2)] \<open>w = u' @ v\<close>
    show ?thesis by simp
  qed
qed

lemma regex_test_complete: "in_lang r s \<Longrightarrow> regex_test r s"
  unfolding regex_test_def
proof (induction s arbitrary: r)
  case Nil
  then show ?case by (simp add: nullable_complete)
next
  case (Cons c s)
  from deriv_complete [OF Cons.prems refl] have "in_lang (deriv c r) s" .
  with Cons.IH show ?case by simp
qed

lemma regex_test_iff: "regex_test r s \<longleftrightarrow> in_lang r s"
  by (blast intro: regex_test_sound regex_test_complete)
lemma star_ends:
  "in_lang (RStar r) w \<Longrightarrow> w = [] \<or> (\<exists>p q. w = p @ q \<and> in_lang r q)"
proof (induction "RStar r" w rule: in_lang.induct)
  case star_none
  then show ?case by simp
next
  case (star_more u v)
  from star_more.hyps(4) show ?case
  proof
    assume "v = []"
    with star_more.hyps(1) have "u @ v = [] @ u \<and> in_lang r u" by simp
    then show ?thesis by blast
  next
    assume "\<exists>p q. v = p @ q \<and> in_lang r q"
    then obtain p q where "v = p @ q" "in_lang r q" by blast
    then have "u @ v = (u @ p) @ q \<and> in_lang r q" by simp
    then show ?thesis by blast
  qed
qed

lemma plus_ends:
  assumes "in_lang (RPlus r) w"
  shows "\<exists>p q. w = p @ q \<and> in_lang r q"
proof -
  from assms obtain u v where w: "w = u @ v" and u: "in_lang r u" and v: "in_lang (RStar r) v"
    unfolding RPlus_def by (auto elim: in_lang.cases)
  from star_ends [OF v] show ?thesis
  proof
    assume "v = []"
    with w u have "w = [] @ u \<and> in_lang r u" by simp
    then show ?thesis by blast
  next
    assume "\<exists>p q. v = p @ q \<and> in_lang r q"
    then obtain p q where "v = p @ q" "in_lang r q" by blast
    with w have "w = (u @ p) @ q \<and> in_lang r q" by simp
    then show ?thesis by blast
  qed
qed

lemma seq_ends:
  assumes "in_lang (RSeq a b) w"
  obtains p q where "w = p @ q" and "in_lang b q"
  using assms by (auto elim: in_lang.cases)

lemma char_shape: "in_lang (RChar P) w \<Longrightarrow> \<exists>c. w = [c] \<and> P c"
  by (auto elim: in_lang.cases)

lemma opt_char_shape: "in_lang (ROpt (RChar P)) w \<Longrightarrow> length w \<le> 1"
  unfolding ROpt_def by (auto elim!: in_lang.cases)

lemma dot_suffix_shape:
  assumes "in_lang dot_suffix q"
  shows "\<exists>x. q = CHR ''.'' # x \<and> (length x = 2 \<or> length x = 3)"
proof -
  from assms obtain d r1 where q: "q = d @ r1" and d: "in_lang (RChar is_dot) d"
    and r1: "in_lang (RSeq (RChar word_char) (RSeq (RChar word_char) (ROpt (RChar word_char)))) r1"
    unfolding dot_suffix_def by (auto elim: in_lang.cases)
  from r1 obtain a r2 where r1': "r1 = a @ r2" and a: "in_lang (RChar word_char) a"
    and r2: "in_lang (RSeq (RChar word_char) (ROpt (RChar word_char))) r2"
    by (auto elim: in_lang.cases)
  from r2 obtain b c where r2': "r2 = b @ c" and b: "in_lang (RChar word_char) b"
    and c: "in_lang (ROpt (RChar word_char)) c"
    by (auto elim: in_lang.cases)
  from char_shape [OF d] have "d = [CHR ''.'']" by (auto simp: is_dot_def)
  moreover from char_shape [OF a] have "length a = 1" by auto
  moreover from char_shape [OF b] have "length b = 1" by auto
  moreover from opt_char_shape [OF c] have "length c = 0 \<or> length c = 1" by linarith
  ultimately have "q = CHR ''.'' # (a @ b @ c) \<and> (length (a @ b @ c) = 2 \<or> length (a @ b @ c) = 3)"
    using q r1' r2' by auto
  then show ?thesis by blast
qed

lemma email_pattern_ends:
  assumes "in_lang email_pattern w"
  shows "\<exists>p x. w = p @ CHR ''.'' # x \<and> (length x = 2 \<or> length x = 3)"
proof -
  from assms obtain p1 q1 where 1: "w = p1 @ q1"
    and "in_lang (RSeq (RChar is_at) (RSeq dotted_words (RPlus dot_suffix))) q1"
    unfolding email_pattern_def by (rule seq_ends)
  then obtain p2 q2 where 2: "q1 = p2 @ q2" and "in_lang (RSeq dotted_words (RPlus dot_suffix)) q2"
    by (auto elim: seq_ends)
  then obtain p3 q3 where 3: "q2 = p3 @ q3" and "in_lang (RPlus dot_suffix) q3"
    by (auto elim: seq_ends)
  from plus_ends [OF this(2)] obtain p4 q4 where 4: "q3 = p4 @ q4" and "in_lang dot_suffix q4"
    by blast
  from dot_suffix_shape [OF this(2)] obtain x where "q4 = CHR ''.'' # x"
    "length x = 2 \<or> length x = 3" by blast
  with 1 2 3 4 have "w = (p1 @ p2 @ p3 @ p4) @ CHR ''.'' # x \<and> (length x = 2 \<or> length x = 3)"
    by simp
  then show ?thesis by blast
qed

lemma dot_local_rejected: "\<not> regex_test email_pattern (pre @ ''.local'')"
proof
  let ?w = "pre @ ''.local''"
  assume "regex_test email_pattern ?w"
  then have "in_lang email_pattern ?w" by (rule regex_test_sound)
  from email_pattern_ends [OF this] obtain p x
    where w: "?w = p @ CHR ''.'' # x" and len: "length x = 2 \<or> length x = 3" by blast
  from w have "rev ?w = rev x @ CHR ''.'' # rev p" by simp
  then have "rev ?w ! length x = CHR ''.''"
    by (simp add: nth_append)
  moreover have "rev ?w ! 2 = CHR ''c''" "rev ?w ! 3 = CHR ''o''" by simp_all
  ultimately show False using len by auto
qed

lemma local_domain_rejected:
  "\<not> regex_test email_pattern (pre @ ''@expensetracker.local'')"
  using dot_local_rejected [of "pre @ ''@expensetracker''"] by simp

subsection \<open>Guest access\<close>

lemma trim_guest_email:
  "trim (''guest_'' @ n @ ''@expensetracker.local'') = ''guest_'' @ n @ ''@expensetracker.local''"
  by (simp add: trim_def is_space_def between_def)

lemma lower_domain:
  "toLowerCase (a @ ''@expensetracker.local'') = toLowerCase a @ ''@expensetracker.local''"
  by (simp add: toLowerCase_def lower_char_def between_def)

lemma guest_email_rejected:
  "\<not> regex_test email_pattern (emailSetter (''guest_'' @ n @ ''@expensetracker.local''))"
proof -
  have "emailSetter (''guest_'' @ n @ ''@expensetracker.local'')
        = toLowerCase (''guest_'' @ n) @ ''@expensetracker.local''"
    using lower_domain [of "''guest_'' @ n"]
    unfolding emailSetter_def trim_guest_email by simp
  then show ?thesis by (simp only: local_domain_rejected not_False_eq_True)
qed

lemma emailSetter_guest_nonempty:
  "emailSetter (''guest_'' @ n @ ''@expensetracker.local'') \<noteq> []"
  unfolding emailSetter_def trim_guest_email by (simp add: toLowerCase_def)

lemma createGuestUser_rejected:
  "\<exists>err. createGuestUser oid now guestData st = Inl err"
proof -
  show ?thesis
  proof (cases guestData)
    case GNull
    then show ?thesis by (simp add: createGuestUser_def)
  next
    case GUndefined
    then show ?thesis
      using guest_email_rejected [of "decimal now"] emailSetter_guest_nonempty [of "decimal now"]
      by (simp add: createGuestUser_def save_new_def validateUser_def email_errors_def)
  next
    case (GObj cur tm)
    then show ?thesis
      using guest_email_rejected [of "decimal now"] emailSetter_guest_nonempty [of "decimal now"]
      by (simp add: createGuestUser_def save_new_def validateUser_def email_errors_def)
  qed
qed

text \<open>
  Claim C8. The claim says that every guest call creates a fresh guest account. The address
  that \<open>createGuestUser\<close> synthesizes ends in \<open>.local\<close>, which the \<open>match\<close> pattern of the
  email path rejects (the pattern ends in a dot followed by two or three word characters).
  So validation fails on every call, whatever the clock, the \<open>guestData\<close> and the collection:
  the handler answers 500 and no account is created.
\<close>

theorem guest_access_always_fails:
  "status (fst (guest_handler development oid now guestData st)) = 500
   \<and> snd (guest_handler development oid now guestData st) = st"
proof -
  from createGuestUser_rejected obtain err
    where "createGuestUser oid now guestData st = Inl err" by blast
  then show ?thesis by (simp add: guest_handler_def)
qed

subsection \<open>Sanitized responses\<close>

lemma keys_delete_prop: "fst ` set (delete_prop k obj) = fst ` set obj - {k}"
  by (auto simp: delete_prop_def)

lemma sanitizeUser_keys:
  "fst ` set (sanitizeUser now usr) \<inter> set secret_fields = {}"
  by (simp only: sanitizeUser_def Let_def keys_delete_prop) (simp add: secret_fields_def)

lemma hides_sanitized: "hides_secrets (Some (sanitizeUser now usr))"
  by (simp add: hides_secrets_def sanitizeUser_keys)

lemma user_of_session_body:
  "user_of_response \<lparr>status = c, body = session_body msg obj toks\<rparr> = Some obj"
  by (simp add: user_of_response_def session_body_def)

lemma user_of_error_body:
  "user_of_response \<lparr>status = c, body = error_body msg\<rparr> = None"
  by (simp add: user_of_response_def error_body_def)

lemma user_of_validation_failed: "user_of_response (validation_failed errors) = None"
  by (simp add: user_of_response_def validation_failed_def)

lemma register_hides: "hides_secrets (user_of_response (fst (register_handler now nm em pw st)))"
  by (simp add: register_handler_def Let_def user_of_session_body user_of_error_body
      hides_sanitized) (simp add: hides_secrets_def)

lemma login_hides:
  "hides_secrets (user_of_response (fst (login_handler bcrypt_compare connected now errors em pw st)))"
proof -
  have none: "hides_secrets None" by (simp add: hides_secrets_def)
  show ?thesis
    by (auto simp: login_handler_def Let_def user_of_session_body user_of_error_body
        user_of_validation_failed hides_sanitized none split: prod.splits sum.splits)
qed

lemma guest_hides:
  "hides_secrets (user_of_response (fst (guest_handler development oid now guestData st)))"
proof (cases "createGuestUser oid now guestData st")
  case (Inl err)
  then show ?thesis
    by (simp add: guest_handler_def user_of_response_def hides_secrets_def)
next
  case (Inr created)
  then show ?thesis
    by (cases created) (simp add: guest_handler_def user_of_session_body hides_sanitized)
qed

lemma reset_hides:
  "hides_secrets (user_of_response
     (fst (reset_password_handler sha256 bcrypt_hash now errors token pw st)))"
proof -
  have none: "hides_secrets None" by (simp add: hides_secrets_def)
  show ?thesis
    by (auto simp: reset_password_handler_def Let_def user_of_session_body user_of_error_body
        user_of_validation_failed hides_sanitized none split: option.splits)
qed

lemma me_hides: "hides_secrets (user_of_response (me_handler now req_user))"
  by (simp add: me_handler_def user_of_response_def hides_sanitized)

text \<open>
  Claim C3. On every response path that returns a user object (register, login, guest,
  reset-password and /me) the serialized user is the result of \<open>sanitizeUser\<close>, and that
  result never has the password hash, the reset-token hash or expiry, or the
  verification-token hash or expiry among its fields, whatever the document holds.
\<close>

theorem responses_hide_secrets:
  "fst ` set (sanitizeUser now usr) \<inter> set secret_fields = {}
   \<and> hides_secrets (user_of_response (fst (register_handler now nm em pw st)))
   \<and> hides_secrets (user_of_response
        (fst (login_handler bcrypt_compare connected now errors ident lpw st)))
   \<and> hides_secrets (user_of_response (fst (guest_handler development oid now guestData st)))
   \<and> hides_secrets (user_of_response
        (fst (reset_password_handler sha256 bcrypt_hash now errors token rpw st)))
   \<and> hides_secrets (user_of_response (me_handler now req_user))"
  by (simp only: sanitizeUser_keys register_hides login_hides guest_hides reset_hides me_hides
      simp_thms)

lemma alice_login:
  "findByCredentials demo_compare 9000 ''alice@ex.io'' (Some ''Secret#123'') [alice]
   = (Inr (alice\<lparr>lastLogin := 9000\<rparr>), [alice\<lparr>lastLogin := 9000\<rparr>])"
  by (simp add: findByCredentials_def alice_found isLocked_def truthy_def comparePassword_def
      doc_updateOne_def Let_def)
    (simp add: alice_def demo_compare_def)

theorem responses_hide_secrets_witness:
  "user_of_response
     (fst (login_handler demo_compare True 9000 [] ''alice@ex.io'' (Some ''Secret#123'') [alice]))
     = Some (sanitizeUser 9000 (Doc (alice\<lparr>lastLogin := 9000\<rparr>)))
   \<and> ''password'' \<in> fst ` set (toObject 9000 (alice\<lparr>lastLogin := 9000\<rparr>))
   \<and> fst ` set (sanitizeUser 9000 (Doc (alice\<lparr>lastLogin := 9000\<rparr>))) \<inter> set secret_fields = {}
   \<and> hides_secrets (user_of_response
        (fst (login_handler demo_compare True 9000 [] ''alice@ex.io'' (Some ''Secret#123'')
               [alice])))"
proof -
  have resp: "user_of_response
     (fst (login_handler demo_compare True 9000 [] ''alice@ex.io'' (Some ''Secret#123'') [alice]))
     = Some (sanitizeUser 9000 (Doc (alice\<lparr>lastLogin := 9000\<rparr>)))"
    by (simp add: login_handler_def alice_login user_of_session_body)
  have stored: "''password'' \<in> fst ` set (toObject 9000 (alice\<lparr>lastLogin := 9000\<rparr>))"
    by (simp add: toObject_def opt_field_def alice_def)
  from responses_hide_secrets [where now = 9000 and usr = "Doc (alice\<lparr>lastLogin := 9000\<rparr>)"
      and bcrypt_compare = demo_compare and connected = True and errors = "[]"
      and ident = "''alice@ex.io''" and lpw = "Some ''Secret#123''" and st = "[alice]"]
  show ?thesis using resp stored by simp
qed

subsection \<open>Registration\<close>

text \<open>
  Claim C2. The claim says that \<open>register\<close> rejects an email that is already registered, a
  malformed email and a short password. The handler only checks that the three body fields
  are non-empty: whenever they are, it answers 201 with a demo account, whatever the
  collection holds and whatever the email and the password look like, and it writes
  nothing.
\<close>

theorem register_accepts_any_complete_body:
  assumes "truthy nm" and "truthy em" and "truthy pw"
  shows "status (fst (register_handler now nm em pw st)) = 201
         \<and> snd (register_handler now nm em pw st) = st"
  using assms by (simp add: register_handler_def Let_def)

theorem register_accepts_any_complete_body_witness:
  "findOne (\<lambda>u. email u = Some ''alice@ex.io'') [alice] = Some alice
   \<and> status (fst (register_handler 9000 (Some ''Mallory'') (Some ''alice@ex.io'') (Some ''x'')
                    [alice])) = 201
   \<and> snd (register_handler 9000 (Some ''Mallory'') (Some ''alice@ex.io'') (Some ''x'') [alice])
       = [alice]
   \<and> \<not> regex_test email_pattern ''not-an-email''
   \<and> status (fst (register_handler 9000 (Some ''Mallory'') (Some ''not-an-email'') (Some ''x'')
                    [alice])) = 201"
proof -
  have t: "truthy (Some ''Mallory'')" "truthy (Some ''alice@ex.io'')" "truthy (Some ''x'')"
    "truthy (Some ''not-an-email'')"
    by (simp_all add: truthy_def)
  have dup: "findOne (\<lambda>u. email u = Some ''alice@ex.io'') [alice] = Some alice"
    by (simp add: findOne_def alice_def)
  have bad: "\<not> regex_test email_pattern ''not-an-email''"
    by code_simp
  from register_accepts_any_complete_body [OF t(1) t(2) t(3), of 9000 "[alice]"]
    register_accepts_any_complete_body [OF t(1) t(4) t(3), of 9000 "[alice]"] dup bad
  show ?thesis by simp
qed

subsection \<open>Login failures\<close>

text \<open>
  Claim C4 as stated fails: a locked and a deactivated account are both answered with 401,
  not 403, by the handler's only \<open>catch\<close> branch.
\<close>

theorem login_locked_and_deactivated_are_401:
  "isLocked 6000 (alice\<lparr>loginAttempts := 5, lockUntil := Some 7205000\<rparr>)
   \<and> status (fst (login_handler demo_compare True 6000 [] ''alice@ex.io'' (Some ''Secret#123'')
                    [alice\<lparr>loginAttempts := 5, lockUntil := Some 7205000\<rparr>])) = 401
   \<and> status (fst (login_handler demo_compare True 6000 [] ''alice@ex.io'' (Some ''Secret#123'')
                    [alice\<lparr>loginAttempts := 5, lockUntil := Some 7205000\<rparr>])) \<noteq> 403
   \<and> \<not> isActive (alice\<lparr>isActive := False\<rparr>)
   \<and> status (fst (login_handler demo_compare True 6000 [] ''alice@ex.io'' (Some ''Secret#123'')
                    [alice\<lparr>isActive := False\<rparr>])) = 401
   \<and> status (fst (login_handler demo_compare True 6000 [] ''alice@ex.io'' (Some ''Secret#123'')
                    [alice\<lparr>isActive := False\<rparr>])) \<noteq> 403"
proof -
  have l1: "lookupCredentials ''alice@ex.io'' [alice\<lparr>loginAttempts := 5, lockUntil := Some 7205000\<rparr>]
            = Some (alice\<lparr>loginAttempts := 5, lockUntil := Some 7205000\<rparr>)"
    by (simp add: lookupCredentials_def includes_at_def findOne_def alice_def emailSetter_def
        toLowerCase_def trim_def is_space_def lower_char_def between_def)
  have l2: "lookupCredentials ''alice@ex.io'' [alice\<lparr>isActive := False\<rparr>]
            = Some (alice\<lparr>isActive := False\<rparr>)"
    by (simp add: lookupCredentials_def includes_at_def findOne_def alice_def emailSetter_def
        toLowerCase_def trim_def is_space_def lower_char_def between_def)
  have locked: "isLocked 6000 (alice\<lparr>loginAttempts := 5, lockUntil := Some 7205000\<rparr>)"
    by (simp add: isLocked_def)
  have unlocked: "\<not> isLocked 6000 (alice\<lparr>isActive := False\<rparr>)"
    by (simp add: isLocked_def alice_def)
  show ?thesis
    using locked unlocked
    by (simp add: login_handler_def findByCredentials_def l1 l2)
qed

text \<open>
  Claim C4, as the code has it. For a login request that passes validation while the
  database is connected, every failure of \<open>findByCredentials\<close> is answered with HTTP 401 and
  the message of the error: an unknown email and a wrong password with the very same
  response (\<open>Invalid credentials\<close>), a locked account with the lockout message, a
  deactivated account with \<open>Account is deactivated\<close>. No failure is answered with 403.
\<close>

theorem login_failures_are_401:
  shows "(lookupCredentials em st = None \<longrightarrow>
            login_handler bcrypt_compare True now [] em pw st
            = (\<lparr>status = 401, body = error_body ''Invalid credentials''\<rparr>, st))
       \<and> (lookupCredentials em st = Some u \<and> \<not> isLocked now u \<and> isActive u
            \<and> truthy pw \<and> \<not> comparePassword bcrypt_compare u (the pw) \<longrightarrow>
            fst (login_handler bcrypt_compare True now [] em pw st)
            = \<lparr>status = 401, body = error_body ''Invalid credentials''\<rparr>)
       \<and> (lookupCredentials em st = Some u \<and> isLocked now u \<longrightarrow>
            login_handler bcrypt_compare True now [] em pw st
            = (\<lparr>status = 401,
                 body = error_body
                   ''Account is temporarily locked due to too many failed login attempts''\<rparr>, st))
       \<and> (lookupCredentials em st = Some u \<and> \<not> isLocked now u \<and> \<not> isActive u \<longrightarrow>
            login_handler bcrypt_compare True now [] em pw st
            = (\<lparr>status = 401, body = error_body ''Account is deactivated''\<rparr>, st))"
  by (simp add: login_handler_def findByCredentials_def)

theorem login_failures_are_401_witness:
  "lookupCredentials ''alice@ex.io'' [alice\<lparr>loginAttempts := 5, lockUntil := Some 7205000\<rparr>]
     = Some (alice\<lparr>loginAttempts := 5, lockUntil := Some 7205000\<rparr>)
   \<and> isLocked 6000 (alice\<lparr>loginAttempts := 5, lockUntil := Some 7205000\<rparr>)
   \<and> login_handler demo_compare True 6000 [] ''alice@ex.io'' (Some ''Secret#123'')
        [alice\<lparr>loginAttempts := 5, lockUntil := Some 7205000\<rparr>]
      = (\<lparr>status = 401,
           body = error_body
             ''Account is temporarily locked due to too many failed login attempts''\<rparr>,
         [alice\<lparr>loginAttempts := 5, lockUntil := Some 7205000\<rparr>])
   \<and> lookupCredentials ''nobody@ex.io'' [alice] = None
   \<and> login_handler demo_compare True 6000 [] ''nobody@ex.io'' (Some ''Secret#123'') [alice]
      = (\<lparr>status = 401, body = error_body ''Invalid credentials''\<rparr>, [alice])
   \<and> fst (login_handler demo_compare True 6000 [] ''alice@ex.io'' (Some ''guess'') [alice])
      = \<lparr>status = 401, body = error_body ''Invalid credentials''\<rparr>"
proof -
  let ?locked = "alice\<lparr>loginAttempts := 5, lockUntil := Some 7205000\<rparr>"
  have l1: "lookupCredentials ''alice@ex.io'' [?locked] = Some ?locked"
    by (simp add: lookupCredentials_def includes_at_def findOne_def alice_def emailSetter_def
        toLowerCase_def trim_def is_space_def lower_char_def between_def)
  have locked: "isLocked 6000 ?locked" by (simp add: isLocked_def)
  have l2: "lookupCredentials ''nobody@ex.io'' [alice] = None"
    by (simp add: lookupCredentials_def includes_at_def findOne_def alice_def emailSetter_def
        toLowerCase_def trim_def is_space_def lower_char_def between_def)
  have wrong: "\<not> isLocked 6000 alice \<and> isActive alice \<and> truthy (Some ''guess'')
      \<and> \<not> comparePassword demo_compare alice (the (Some ''guess''))"
    by (simp add: isLocked_def alice_def truthy_def comparePassword_def demo_compare_def)
  from login_failures_are_401 [where em = "''alice@ex.io''" and st = "[?locked]" and u = ?locked
      and now = 6000 and bcrypt_compare = demo_compare and pw = "Some ''Secret#123''"]
    login_failures_are_401 [where em = "''nobody@ex.io''" and st = "[alice]" and u = alice
      and now = 6000 and bcrypt_compare = demo_compare and pw = "Some ''Secret#123''"]
    login_failures_are_401 [where em = "''alice@ex.io''" and st = "[alice]" and u = alice
      and now = 6000 and bcrypt_compare = demo_compare and pw = "Some ''guess''"]
    l1 locked l2 wrong alice_found
  show ?thesis by simp
qed

subsection \<open>Password reset\<close>

lemma set_doc_updateOne:
  assumes "distinct (map uid st)" and "u \<in> set st"
  shows "set (doc_updateOne u f st) = insert (f u) (set st - {u})"
  using assms unfolding doc_updateOne_def
proof (induction st)
  case Nil
  then show ?case by simp
next
  case (Cons v vs)
  show ?case
  proof (cases "uid v = uid u")
    case True
    with Cons.prems have "v = u" "u \<notin> set vs" by force+
    with True show ?thesis by auto
  next
    case False
    with Cons.prems have "u \<in> set vs" "v \<noteq> u" by auto
    with False Cons show ?thesis by auto
  qed
qed

lemma findOne_in_set: "findOne P st = Some u \<Longrightarrow> u \<in> set st \<and> P u"
  by (auto simp: findOne_def find_Some_iff)

lemma findOne_None: "findOne P st = None \<longleftrightarrow> (\<forall>v\<in>set st. \<not> P v)"
  by (auto simp: findOne_def find_None_iff)

lemma findOne_only:
  assumes "u \<in> set st" and "P u" and "\<forall>v\<in>set st. P v \<longrightarrow> v = u"
  shows "findOne P st = Some u"
proof (cases "findOne P st")
  case None
  with assms(1,2) show ?thesis by (simp add: findOne_None)
next
  case (Some v)
  from findOne_in_set [OF this] assms(3) Some show ?thesis by auto
qed

text \<open>
  Claim C5. Let one account hold the hash of the token. When its stored expiry is not
  after the clock, \<open>resetPassword\<close> answers 400 \<open>Invalid or expired reset token\<close> and writes
  nothing. When the expiry is still ahead and the document passes validation with the new
  password, the call answers 200, stores the hash of the new password and clears both
  reset fields; every later call with the same token then answers 400 and writes nothing.
\<close>

theorem reset_token_single_use:
  assumes ids: "distinct (map uid st)"
    and holder: "u \<in> set st" "passwordResetToken u = Some (sha token)"
      "passwordResetExpires u = Some e"
    and only: "\<forall>v\<in>set st. passwordResetToken v = Some (sha token) \<longrightarrow> v = u"
  shows "(e \<le> now \<longrightarrow>
            reset_password_handler sha bcrypt_hash now [] token pw st
            = (\<lparr>status = 400, body = error_body ''Invalid or expired reset token''\<rparr>, st))
       \<and> (now < e \<and> validateUser (u\<lparr>password := Some pw, passwordResetToken := None,
                                       passwordResetExpires := None\<rparr>) = [] \<longrightarrow>
            (\<exists>st1 v. snd (reset_password_handler sha bcrypt_hash now [] token pw st) = st1
               \<and> status (fst (reset_password_handler sha bcrypt_hash now [] token pw st)) = 200
               \<and> v \<in> set st1 \<and> uid v = uid u
               \<and> password v = Some (bcrypt_hash pw)
               \<and> passwordResetToken v = None \<and> passwordResetExpires v = None
               \<and> (\<forall>now2 pw2.
                     reset_password_handler sha bcrypt_hash now2 [] token pw2 st1
                     = (\<lparr>status = 400, body = error_body ''Invalid or expired reset token''\<rparr>,
                        st1))))"
proof (intro conjI impI)
  assume "e \<le> now"
  have "findOne (has_valid_reset_token (sha token) now) st = None"
    unfolding findOne_None
  proof
    fix v assume "v \<in> set st"
    with only holder(3) \<open>e \<le> now\<close> show "\<not> has_valid_reset_token (sha token) now v"
      by (auto simp: has_valid_reset_token_def)
  qed
  then show "reset_password_handler sha bcrypt_hash now [] token pw st
            = (\<lparr>status = 400, body = error_body ''Invalid or expired reset token''\<rparr>, st)"
    by (simp add: reset_password_handler_def)
next
  let ?f = "\<lambda>v. v\<lparr>password := Some (bcrypt_hash pw), passwordResetToken := None,
                     passwordResetExpires := None\<rparr>"
  let ?st1 = "doc_updateOne u ?f st"
  assume valid: "now < e \<and> validateUser (u\<lparr>password := Some pw, passwordResetToken := None,
                                       passwordResetExpires := None\<rparr>) = []"
  have "has_valid_reset_token (sha token) now u"
    using holder valid by (simp add: has_valid_reset_token_def)
  moreover have "\<forall>v\<in>set st. has_valid_reset_token (sha token) now v \<longrightarrow> v = u"
    using only by (auto simp: has_valid_reset_token_def)
  ultimately have found: "findOne (has_valid_reset_token (sha token) now) st = Some u"
    using holder(1) by (intro findOne_only)
  have first: "reset_password_handler sha bcrypt_hash now [] token pw st
               = (\<lparr>status = 200,
                    body = session_body ''Password reset successfully''
                             (sanitizeUser now (Doc (?f u))) (generateTokens (Doc (?f u)))\<rparr>,
                  ?st1)"
    using found valid by (simp add: reset_password_handler_def Let_def)
  have members: "set ?st1 = insert (?f u) (set st - {u})"
    by (rule set_doc_updateOne [OF ids holder(1)])
  have gone: "findOne (has_valid_reset_token (sha token) now2) ?st1 = None" for now2
    unfolding findOne_None members using only
    by (auto simp: has_valid_reset_token_def)
  have second: "reset_password_handler sha bcrypt_hash now2 [] token pw2 ?st1
                = (\<lparr>status = 400, body = error_body ''Invalid or expired reset token''\<rparr>, ?st1)"
    for now2 pw2
    using gone [of now2] by (simp add: reset_password_handler_def)
  have "?f u \<in> set ?st1" using members by simp
  with first second
  show "\<exists>st1 v. snd (reset_password_handler sha bcrypt_hash now [] token pw st) = st1
               \<and> status (fst (reset_password_handler sha bcrypt_hash now [] token pw st)) = 200
               \<and> v \<in> set st1 \<and> uid v = uid u
               \<and> password v = Some (bcrypt_hash pw)
               \<and> passwordResetToken v = None \<and> passwordResetExpires v = None
               \<and> (\<forall>now2 pw2.
                     reset_password_handler sha bcrypt_hash now2 [] token pw2 st1
                     = (\<lparr>status = 400, body = error_body ''Invalid or expired reset token''\<rparr>,
                        st1))"
    by (intro exI [of _ ?st1] exI [of _ "?f u"]) simp
qed

lemma alice_email_ok: "regex_test email_pattern ''alice@ex.io''"
  by code_simp

theorem reset_token_single_use_witness:
  "passwordResetToken (alice\<lparr>passwordResetToken := Some (demo_sha256 ''t0k3n''),
                           passwordResetExpires := Some 600000\<rparr>) = Some (demo_sha256 ''t0k3n'')
   \<and> validateUser (alice\<lparr>password := Some ''NewPass#1''\<rparr>) = []
   \<and> reset_password_handler demo_sha256 demo_hash 600000 [] ''t0k3n'' ''NewPass#1''
        [alice\<lparr>passwordResetToken := Some (demo_sha256 ''t0k3n''),
               passwordResetExpires := Some 600000\<rparr>]
      = (\<lparr>status = 400, body = error_body ''Invalid or expired reset token''\<rparr>,
         [alice\<lparr>passwordResetToken := Some (demo_sha256 ''t0k3n''),
                passwordResetExpires := Some 600000\<rparr>])
   \<and> (\<exists>st1 v.
         snd (reset_password_handler demo_sha256 demo_hash 9000 [] ''t0k3n'' ''NewPass#1''
                [alice\<lparr>passwordResetToken := Some (demo_sha256 ''t0k3n''),
                       passwordResetExpires := Some 600000\<rparr>]) = st1
       \<and> status (fst (reset_password_handler demo_sha256 demo_hash 9000 [] ''t0k3n'' ''NewPass#1''
                [alice\<lparr>passwordResetToken := Some (demo_sha256 ''t0k3n''),
                       passwordResetExpires := Some 600000\<rparr>])) = 200
       \<and> v \<in> set st1 \<and> uid v = uid alice
       \<and> password v = Some (demo_hash ''NewPass#1'')
       \<and> passwordResetToken v = None \<and> passwordResetExpires v = None
       \<and> reset_password_handler demo_sha256 demo_hash 9001 [] ''t0k3n'' ''Other#222'' st1
          = (\<lparr>status = 400, body = error_body ''Invalid or expired reset token''\<rparr>, st1))"
proof -
  let ?a = "alice\<lparr>passwordResetToken := Some (demo_sha256 ''t0k3n''),
                  passwordResetExpires := Some 600000\<rparr>"
  have ids: "distinct (map uid [?a])" by simp
  have holder: "?a \<in> set [?a]" "passwordResetToken ?a = Some (demo_sha256 ''t0k3n'')"
    "passwordResetExpires ?a = Some 600000"
    by simp_all
  have only: "\<forall>v\<in>set [?a]. passwordResetToken v = Some (demo_sha256 ''t0k3n'') \<longrightarrow> v = ?a"
    by simp
  have valid: "validateUser (alice\<lparr>password := Some ''NewPass#1''\<rparr>) = []"
    by (simp add: validateUser_def name_errors_def email_errors_def password_errors_def
        enum_errors_def alice_def alice_email_ok)
  then have valid': "(9000::nat) < 600000
      \<and> validateUser (?a\<lparr>password := Some ''NewPass#1'', passwordResetToken := None,
                          passwordResetExpires := None\<rparr>) = []"
    by (simp add: alice_def)
  have expired: "(600000::nat) \<le> 600000" by simp
  note thm1 = reset_token_single_use [where sha = demo_sha256 and bcrypt_hash = demo_hash
      and pw = "''NewPass#1''", OF ids holder only]
  from thm1 [of 600000] expired
  have a: "reset_password_handler demo_sha256 demo_hash 600000 [] ''t0k3n'' ''NewPass#1'' [?a]
      = (\<lparr>status = 400, body = error_body ''Invalid or expired reset token''\<rparr>, [?a])"
    by blast
  from thm1 [of 9000] valid'
  obtain st1 v where b:
      "snd (reset_password_handler demo_sha256 demo_hash 9000 [] ''t0k3n'' ''NewPass#1'' [?a]) = st1"
      "status (fst (reset_password_handler demo_sha256 demo_hash 9000 [] ''t0k3n'' ''NewPass#1''
         [?a])) = 200"
      "v \<in> set st1" "uid v = uid ?a" "password v = Some (demo_hash ''NewPass#1'')"
      "passwordResetToken v = None" "passwordResetExpires v = None"
    and again: "\<forall>now2 pw2. reset_password_handler demo_sha256 demo_hash now2 [] ''t0k3n'' pw2 st1
        = (\<lparr>status = 400, body = error_body ''Invalid or expired reset token''\<rparr>, st1)"
    by blast
  from again have c: "reset_password_handler demo_sha256 demo_hash 9001 [] ''t0k3n'' ''Other#222'' st1
        = (\<lparr>status = 400, body = error_body ''Invalid or expired reset token''\<rparr>, st1)"
    by blast
  from b(4) have "uid v = uid alice" by simp
  with holder(2) valid a b c show ?thesis by blast
qed

subsection \<open>Password reset requests\<close>




lemma findOne_doc_updateOne:
  assumes "findOne P st = Some u" and "distinct (map uid st)" and "P (f u)"
  shows "findOne P (doc_updateOne u f st) = Some (f u)"
  using find_doc_updateOne [of P st u f] assms by (simp add: findOne_def doc_updateOne_def)

text \<open>
  Claim C7. When the dispatch of the reset email throws for an existing account, the
  handler answers 500 and the account is stored with no reset-token hash and no expiry:
  the token written before the dispatch is rolled back.
\<close>

theorem forgot_password_rolls_back_token:
  assumes found: "findOne (\<lambda>u. email u = Some (emailSetter em)) st = Some u"
    and ids: "distinct (map uid st)"
  shows "\<exists>v. findOne (\<lambda>u. email u = Some (emailSetter em))
                (snd (forgot_password_handler sha now [] em resetToken (Some emailError) st))
              = Some v
           \<and> uid v = uid u
           \<and> passwordResetToken v = None \<and> passwordResetExpires v = None
           \<and> status (fst (forgot_password_handler sha now [] em resetToken (Some emailError) st))
              = 500"
proof -
  let ?P = "\<lambda>u. email u = Some (emailSetter em)"
  let ?set = "createPasswordResetToken sha now resetToken"
  let ?clear = "\<lambda>v. v\<lparr>passwordResetToken := None, passwordResetExpires := None\<rparr>"
  let ?st1 = "doc_updateOne u ?set st"
  from findOne_in_set [OF found] have Pu: "?P u" by simp
  then have "?P (?set u)" by (simp add: createPasswordResetToken_def)
  with found ids have f1: "findOne ?P ?st1 = Some (?set u)"
    by (rule findOne_doc_updateOne [where P = ?P and f = ?set])
  have ids1: "distinct (map uid ?st1)"
    using ids by (simp add: doc_updateOne_uids createPasswordResetToken_def)
  have same_doc: "doc_updateOne u ?clear ?st1 = doc_updateOne (?set u) ?clear ?st1"
    by (simp add: doc_updateOne_def createPasswordResetToken_def)
  have "?P (?clear (?set u))" using Pu by (simp add: createPasswordResetToken_def)
  with f1 ids1 have "findOne ?P (doc_updateOne (?set u) ?clear ?st1) = Some (?clear (?set u))"
    by (rule findOne_doc_updateOne [where P = ?P and f = ?clear])
  then have f2: "findOne ?P (doc_updateOne u ?clear ?st1) = Some (?clear (?set u))"
    by (simp add: same_doc)
  have "forgot_password_handler sha now [] em resetToken (Some emailError) st
        = (\<lparr>status = 500, body = error_body ''Failed to send password reset email''\<rparr>,
           doc_updateOne u ?clear ?st1)"
    using found by (simp add: forgot_password_handler_def Let_def)
  with f2 show ?thesis by (simp add: createPasswordResetToken_def)
qed

theorem forgot_password_rolls_back_token_witness:
  "findOne (\<lambda>u. email u = Some (emailSetter ''alice@ex.io'')) [alice] = Some alice
   \<and> (\<exists>v. findOne (\<lambda>u. email u = Some (emailSetter ''alice@ex.io''))
             (snd (forgot_password_handler demo_sha256 9000 [] ''alice@ex.io'' ''t0k3n''
                     (Some (TypeError ''sendEmail is not a function'')) [alice]))
           = Some v
        \<and> uid v = uid alice
        \<and> passwordResetToken v = None \<and> passwordResetExpires v = None
        \<and> status (fst (forgot_password_handler demo_sha256 9000 [] ''alice@ex.io'' ''t0k3n''
                     (Some (TypeError ''sendEmail is not a function'')) [alice])) = 500)"
proof -
  have e1: "emailSetter ''alice@ex.io'' = ''alice@ex.io''"
    by (simp add: emailSetter_def toLowerCase_def trim_def is_space_def lower_char_def
        between_def)
  have f1: "findOne (\<lambda>u. email u = Some (emailSetter ''alice@ex.io'')) [alice] = Some alice"
    unfolding e1 by (simp add: findOne_def alice_def)
  have ids: "distinct (map uid [alice])" by simp
  from forgot_password_rolls_back_token [OF f1 ids, where sha = demo_sha256 and now = 9000
      and resetToken = "''t0k3n''" and emailError = "TypeError ''sendEmail is not a function''"]
    f1
  show ?thesis by simp
qed

subsection \<open>OAuth resolution order\<close>



















text \<open>
  A Facebook profile without an email gets the address \<open>facebook_<id>@facebook.local\<close>,
  which the email pattern rejects like the guest address: for such a profile the third
  tier never creates an account.
\<close>

lemma facebook_without_email_fails:
  assumes "findOne (\<lambda>u. facebookId u = Some (p_id prof)) st = None"
    and "p_emails prof = None \<or> p_emails prof = Some []"
  shows "\<exists>err. facebook_verify oid now prof st = (Inl err, st)"
proof -
  let ?raw = "''facebook_'' @ p_id prof @ ''@facebook.local''"
  have "trim ?raw = ?raw"
    by (simp add: trim_def is_space_def between_def)
  then have "emailSetter ?raw = toLowerCase (''facebook_'' @ p_id prof @ ''@facebook'') @ ''.local''"
    by (simp add: emailSetter_def toLowerCase_def lower_char_def between_def)
  then have bad: "\<not> regex_test email_pattern (emailSetter ?raw)" "emailSetter ?raw \<noteq> []"
    by (simp_all only: dot_local_rejected not_False_eq_True) simp
  from assms(2) have none: "Option.bind (p_emails prof) first_value = None"
    by (auto simp: first_value_def)
  show ?thesis
    using assms(1) none bad
    by (simp add: facebook_verify_def save_new_def oauth_result_def validateUser_def
        email_errors_def Let_def)
qed

end
